theory Spec2Isabelle
  imports Complex_Main
begin

section \<open>JavaScript values\<close>

text \<open>
  The check runner (\<^verbatim>\<open>src/unnamed/part_001\<close>, with the earlier renderer of
  \<^verbatim>\<open>src/unnamed/part_000\<close>) is TypeScript: its types are erased, and
  \<^verbatim>\<open>JSON.parse\<close> hands it whatever value the line encodes. The embedding therefore
  works on JSON values and spells out what each property read, iteration and
  comparison of the source does on every one of them.

  A number is the rational its double stands for: the source only copies and prints
  numbers, and both the rounding of a literal and the printing belong to the platform.
  An object is the association list of its own properties; the first binding of a key
  is its value. The value \<^verbatim>\<open>undefined\<close> is \<open>None\<close>. A string is a list of
  characters and its length is their number (the source counts UTF-16 units, the same
  number for ASCII text).
\<close>

datatype json =
    JNull
  | JBool bool
  | JNum rat
  | JStr string
  | JArr "json list"
  | JObj "(string \<times> json) list"

type_synonym jsval = "json option"

text \<open>
  What the source can raise: the two built-in errors of the value operations, whatever
  the remote client rejects with, and the \<^verbatim>\<open>new Error(message)\<close> of \<^verbatim>\<open>run\<close>.
\<close>

datatype error =
    SyntaxError
  | TypeError
  | RequestError string
  | Error string

text \<open>
  The platform: everything the source calls that is not code of the repository.
  \<^item> \<open>JSON_parse\<close>: \<^verbatim>\<open>JSON.parse\<close> on a string; \<open>None\<close> is its SyntaxError.
  \<^item> \<open>JSON_stringify\<close>: \<^verbatim>\<open>JSON.stringify(v, null, 2)\<close>.
  \<^item> \<open>Number_toString\<close>: the decimal text of a number.
  \<^item> \<open>StringToNumber_gt0\<close>: whether a string, read as a number, is greater than zero.
  \<^item> \<open>Error_toString\<close>: the text of an error inside a template literal.
  \<^item> \<open>GITHUB_HEAD_REF\<close>: the environment variable of that name.
  \<^item> \<open>Date_now\<close>: \<^verbatim>\<open>new Date().toISOString()\<close>, read after so many logged effects.
\<close>

record platform =
  JSON_parse :: "string \<Rightarrow> json option"
  JSON_stringify :: "json \<Rightarrow> string"
  Number_toString :: "rat \<Rightarrow> string"
  StringToNumber_gt0 :: "string \<Rightarrow> bool"
  Error_toString :: "error \<Rightarrow> string"
  GITHUB_HEAD_REF :: "string option"
  Date_now :: "nat \<Rightarrow> string"

fun join :: "string \<Rightarrow> string list \<Rightarrow> string" where
  "join sep [] = []"
| "join sep [x] = x"
| "join sep (x # y # ys) = x @ sep @ join sep (y # ys)"

text \<open>
  \<^verbatim>\<open>String(v)\<close>, as a template literal and \<^verbatim>\<open>JSON.parse\<close> apply it: an array joins
  its elements with commas (\<^verbatim>\<open>null\<close> as the empty string), a plain object is
  \<^verbatim>\<open>[object Object]\<close>.
\<close>

fun json_str :: "platform \<Rightarrow> json \<Rightarrow> string" where
  "json_str pf JNull = ''null''"
| "json_str pf (JBool b) = (if b then ''true'' else ''false'')"
| "json_str pf (JNum n) = Number_toString pf n"
| "json_str pf (JStr s) = s"
| "json_str pf (JArr xs) = join '','' (map (\<lambda>x. if x = JNull then [] else json_str pf x) xs)"
| "json_str pf (JObj kv) = ''[object Object]''"

definition ToString :: "platform \<Rightarrow> jsval \<Rightarrow> string" where
  "ToString pf v = (case v of None \<Rightarrow> ''undefined'' | Some j \<Rightarrow> json_str pf j)"

text \<open>
  A property read \<^verbatim>\<open>v.k\<close>. Reading from \<^verbatim>\<open>null\<close> or \<^verbatim>\<open>undefined\<close> raises a
  TypeError; a missing property is \<^verbatim>\<open>undefined\<close>; arrays and strings have their
  \<^verbatim>\<open>length\<close>. (The property names the source reads are on no prototype, but for
  \<^verbatim>\<open>length\<close>.)
\<close>

fun get :: "jsval \<Rightarrow> string \<Rightarrow> error + jsval" where
  "get None k = Inl TypeError"
| "get (Some JNull) k = Inl TypeError"
| "get (Some (JObj kv)) k = Inr (map_of kv k)"
| "get (Some (JArr xs)) k =
     Inr (if k = ''length'' then Some (JNum (of_nat (length xs))) else None)"
| "get (Some (JStr s)) k =
     Inr (if k = ''length'' then Some (JNum (of_nat (length s))) else None)"
| "get (Some (JBool b)) k = Inr None"
| "get (Some (JNum n)) k = Inr None"

text \<open>The comparison \<^verbatim>\<open>v > 0\<close>: the value is first turned into a number.\<close>

fun gt_zero :: "platform \<Rightarrow> jsval \<Rightarrow> bool" where
  "gt_zero pf None = False"
| "gt_zero pf (Some JNull) = False"
| "gt_zero pf (Some (JBool b)) = b"
| "gt_zero pf (Some (JNum n)) = (0 < n)"
| "gt_zero pf (Some (JStr s)) = StringToNumber_gt0 pf s"
| "gt_zero pf (Some (JArr xs)) = StringToNumber_gt0 pf (json_str pf (JArr xs))"
| "gt_zero pf (Some (JObj kv)) = False"

text \<open>
  The values a \<^verbatim>\<open>for (const x of v)\<close> visits: the elements of an array, the characters
  of a string; nothing else that JSON can hold is iterable.
\<close>

fun iter :: "jsval \<Rightarrow> error + json list" where
  "iter (Some (JArr xs)) = Inr xs"
| "iter (Some (JStr s)) = Inr (map (\<lambda>c. JStr [c]) s)"
| "iter v = Inl TypeError"

text \<open>\<^verbatim>\<open>v1.k1.k2...\<close>, read left to right.\<close>

fun get_path :: "jsval \<Rightarrow> string list \<Rightarrow> error + jsval" where
  "get_path v [] = Inr v"
| "get_path v (k # ks) = (case get v k of Inl e \<Rightarrow> Inl e | Inr v' \<Rightarrow> get_path v' ks)"

text \<open>
  A template literal is its literal chunks and its substitutions, evaluated left to
  right; here every substitution is a chain of property reads from one root.
\<close>

datatype piece = Lit string | Sub "string list"

fun template :: "platform \<Rightarrow> jsval \<Rightarrow> piece list \<Rightarrow> error + string" where
  "template pf obj [] = Inr []"
| "template pf obj (Lit s # ps) =
     (case template pf obj ps of Inl e \<Rightarrow> Inl e | Inr rest \<Rightarrow> Inr (s @ rest))"
| "template pf obj (Sub ks # ps) =
     (case get_path obj ks of
        Inl e \<Rightarrow> Inl e
      | Inr v \<Rightarrow> (case template pf obj ps of Inl e \<Rightarrow> Inl e | Inr rest \<Rightarrow> Inr (ToString pf v @ rest)))"


section \<open>The check runner's data (\<^verbatim>\<open>src/unnamed/part_001\<close>)\<close>

text \<open>
  An annotation as \<^verbatim>\<open>addAnnotation\<close> builds it. The three fields copied from a
  parsed value are whatever that value holds there, \<^verbatim>\<open>undefined\<close> included.
\<close>

record annotation =
  path :: jsval
  start_line :: jsval
  end_line :: jsval
  annotation_level :: string
  title :: jsval
  message :: string

record CheckOptions =
  token :: string
  name :: string
  owner :: string
  repo :: string
  head_sha :: string
  started_at :: string
  rca_version :: string

text \<open>
  The bodies of the two remote calls. Fields a request does not set are \<open>None\<close>:
  \<^verbatim>\<open>conclusion\<close> and \<^verbatim>\<open>completed_at\<close> of an update that is in progress,
  \<^verbatim>\<open>annotations\<close> of an update without a bucket.
\<close>

record create_req =
  c_owner :: string
  c_repo :: string
  c_name :: string
  c_head_sha :: string
  c_status :: string

record output_body =
  o_title :: string
  o_summary :: string
  o_text :: string
  o_annotations :: "annotation list option"

record update_req =
  u_owner :: string
  u_repo :: string
  u_name :: string
  check_run_id :: nat
  status :: string
  conclusion :: "string option"
  completed_at :: "string option"
  output_of :: output_body

text \<open>
  The effects a run leaves behind, in the order they happen: the lines logged through
  \<^verbatim>\<open>core\<close> (\<^verbatim>\<open>core.info\<close> is the standard output) and the requests sent to
  the remote client.
\<close>

datatype event =
    Debug string
  | Info string
  | Warning string
  | ErrorLog string
  | StartGroup string
  | EndGroup
  | Create create_req
  | Update update_req

text \<open>
  The remote client (octokit). A create call resolves with the identifier of the new
  check run or rejects; an update call resolves or rejects, which may depend on the
  update calls made before it.
\<close>

record client =
  checks_create :: "create_req \<Rightarrow> error + nat"
  checks_update :: "update_req list \<Rightarrow> update_req \<Rightarrow> error option"

text \<open>
  The three arrays of the class \<^verbatim>\<open>CheckRunner\<close>; an array grows at its end
  (\<^verbatim>\<open>push\<close>) and \<^verbatim>\<open>pop\<close> takes its last element. A \<open>world\<close> is a runner
  together with the effects logged so far.
\<close>

record CheckRunner =
  annotations :: "annotation list"
  file_metrics :: "string list"
  file_jsons :: "json list"

record world = CheckRunner +
  trace :: "event list"

definition emit :: "event \<Rightarrow> world \<Rightarrow> world" where
  "emit ev w = w\<lparr>trace := trace w @ [ev]\<rparr>"

fun updates_of :: "event list \<Rightarrow> update_req list" where
  "updates_of [] = []"
| "updates_of (Update r # evs) = r # updates_of evs"
| "updates_of (ev # evs) = updates_of evs"



section \<open>Buckets of annotations\<close>

text \<open>
  \<^verbatim>\<open>getBucket\<close>: while the bucket has fewer than 50 entries, pop the last pending
  annotation and push it on the bucket; stop when the pop finds nothing. (An annotation
  is an object, so the test \<^verbatim>\<open>if (annotation)\<close> fails only on the \<^verbatim>\<open>undefined\<close> of
  an empty array.)
\<close>

function getBucket_loop :: "annotation list \<Rightarrow> annotation list \<Rightarrow> annotation list \<times> annotation list" where
  "getBucket_loop bucket anns =
     (if length bucket < 50 then
        (if anns = [] then (bucket, anns)
         else getBucket_loop (bucket @ [last anns]) (butlast anns))
      else (bucket, anns))"
  by pat_completeness auto
termination
  by (relation "measure (\<lambda>(bucket, anns). length anns)") auto

declare getBucket_loop.simps [simp del]

definition getBucket :: "platform \<Rightarrow> world \<Rightarrow> annotation list \<times> world" where
  "getBucket pf w =
     (case getBucket_loop [] (annotations w) of
        (bucket, rest) \<Rightarrow>
          (bucket,
           emit (Debug (''Prepared next annotations bucket, ''
                        @ Number_toString pf (of_nat (length bucket)) @ '' size''))
                (w\<lparr>annotations := rest\<rparr>)))"


section \<open>The check-run lifecycle\<close>

text \<open>\<^verbatim>\<open>getText\<close>: the report body, the rendered files joined by a line break.\<close>

definition getText :: "world \<Rightarrow> string \<Rightarrow> string" where
  "getText w rcaVersion =
     ''## Info\<newline>|          Name          |    Version    |\<newline>|:----------------------:|:-------------:|\<newline>| rust-code-analysis-cli | ''
     @ rcaVersion
     @ '' |\<newline>\<newline>## Results\<newline>\<newline>''
     @ join ''\<newline>'' (file_metrics w)"

text \<open>One awaited \<^verbatim>\<open>client.checks.update(req)\<close>: the request is sent, then it rejects or resolves.\<close>

definition send_update :: "client \<Rightarrow> update_req \<Rightarrow> world \<Rightarrow> (error + unit) \<times> world" where
  "send_update cl req w =
     (case checks_update cl (updates_of (trace w)) req of
        Some e \<Rightarrow> (Inl e, emit (Update req) w)
      | None \<Rightarrow> (Inr (), emit (Update req) w))"

definition create_request :: "CheckOptions \<Rightarrow> create_req" where
  "create_request options =
     \<lparr>c_owner = owner options, c_repo = repo options, c_name = name options,
      c_head_sha = head_sha options, c_status = ''in_progress''\<rparr>"

definition createCheck :: "client \<Rightarrow> CheckOptions \<Rightarrow> world \<Rightarrow> (error + nat) \<times> world" where
  "createCheck cl options w =
     (checks_create cl (create_request options), emit (Create (create_request options)) w)"

definition globalMetricsCheck ::
    "platform \<Rightarrow> client \<Rightarrow> nat \<Rightarrow> CheckOptions \<Rightarrow> world \<Rightarrow> (error + unit) \<times> world" where
  "globalMetricsCheck pf cl checkRunId options w =
     (let req = \<lparr>u_owner = owner options, u_repo = repo options, u_name = name options,
                 check_run_id = checkRunId,
                 status = ''completed'',
                 conclusion = Some ''success'',
                 completed_at = Some (Date_now pf (length (trace w))),
                 output_of = \<lparr>o_title = name options, o_summary = [],
                              o_text = getText w (rca_version options),
                              o_annotations = None\<rparr>\<rparr>
      in send_update cl req w)"

text \<open>
  \<^verbatim>\<open>allMetricsCheck\<close>: the loop runs while the bucket just taken is not empty. The
  request is in progress when annotations are still pending after the bucket was taken,
  and completed otherwise.
\<close>

definition bucket_req ::
    "platform \<Rightarrow> nat \<Rightarrow> CheckOptions \<Rightarrow> annotation list \<Rightarrow> world \<Rightarrow> update_req" where
  "bucket_req pf checkRunId options bucket w =
     (let out = \<lparr>o_title = name options, o_summary = [],
                 o_text = getText w (rca_version options),
                 o_annotations = Some bucket\<rparr>
      in if length (annotations w) > 0
         then \<lparr>u_owner = owner options, u_repo = repo options, u_name = name options,
               check_run_id = checkRunId,
               status = ''in_progress'', conclusion = None, completed_at = None,
               output_of = out\<rparr>
         else \<lparr>u_owner = owner options, u_repo = repo options, u_name = name options,
               check_run_id = checkRunId,
               status = ''completed'', conclusion = Some ''success'',
               completed_at = Some (Date_now pf (length (trace w))),
               output_of = out\<rparr>)"

definition not_last_debug :: "world \<Rightarrow> world" where
  "not_last_debug w =
     (if length (annotations w) > 0
      then emit (Debug (''This is not the last iteration, marking check as '' @ [CHR 0x22]
                        @ ''in_progress'' @ [CHR 0x22])) w
      else w)"

lemma getBucket_loop_length:
  "getBucket_loop bucket anns = (b, rest) \<Longrightarrow> length b + length rest = length bucket + length anns"
proof (induction bucket anns rule: getBucket_loop.induct)
  case (1 bucket anns)
  show ?case
  proof (cases "length bucket < 50 \<and> anns \<noteq> []")
    case True
    with "1.prems" have "getBucket_loop (bucket @ [last anns]) (butlast anns) = (b, rest)"
      by (simp add: getBucket_loop.simps [of bucket anns])
    with True "1.IH" have "length b + length rest = length (bucket @ [last anns]) + length (butlast anns)"
      by blast
    with True show ?thesis by (cases anns rule: rev_cases) auto
  next
    case False
    with "1.prems" show ?thesis
      by (auto simp: getBucket_loop.simps [of bucket anns] split: if_splits)
  qed
qed

lemma getBucket_length:
  "getBucket pf w = (b, w') \<Longrightarrow> length b + length (annotations w') = length (annotations w)"
  by (auto simp: getBucket_def emit_def split: prod.splits dest: getBucket_loop_length)

function allMetricsCheck_loop ::
    "platform \<Rightarrow> client \<Rightarrow> nat \<Rightarrow> CheckOptions \<Rightarrow> annotation list \<Rightarrow> world \<Rightarrow> (error + unit) \<times> world" where
  "allMetricsCheck_loop pf cl checkRunId options bucket w =
     (if length bucket > 0 then
        (case send_update cl (bucket_req pf checkRunId options bucket w) (not_last_debug w) of
           (Inl e, w1) \<Rightarrow> (Inl e, w1)
         | (Inr u, w1) \<Rightarrow>
             (case getBucket pf w1 of
                (bucket', w2) \<Rightarrow> allMetricsCheck_loop pf cl checkRunId options bucket' w2))
      else (Inr (), w))"
  by pat_completeness auto
termination
proof (relation "measure (\<lambda>(pf, cl, checkRunId, options, bucket, w). length bucket + length (annotations w))")
  show "wf (measure (\<lambda>(pf, cl, checkRunId, options, bucket, w). length bucket + length (annotations w)))"
    by simp
next
  fix pf :: platform and cl :: client and checkRunId :: nat and options :: CheckOptions
    and bucket :: "annotation list" and w x1 x2 bucket' w2 and u :: unit
  assume nonempty: "0 < length bucket"
    and sent: "(x1, x2) = send_update cl (bucket_req pf checkRunId options bucket w) (not_last_debug w)"
    and next_bucket: "(bucket', w2) = getBucket pf x2"
  from sent have "annotations x2 = annotations w"
    by (auto simp: send_update_def not_last_debug_def emit_def split: option.splits if_splits)
  moreover from next_bucket have "length bucket' + length (annotations w2) = length (annotations x2)"
    by (simp add: getBucket_length [OF sym])
  ultimately show "((pf, cl, checkRunId, options, bucket', w2), (pf, cl, checkRunId, options, bucket, w))
      \<in> measure (\<lambda>(pf, cl, checkRunId, options, bucket, w). length bucket + length (annotations w))"
    using nonempty by simp
qed

declare allMetricsCheck_loop.simps [simp del]

definition allMetricsCheck ::
    "platform \<Rightarrow> client \<Rightarrow> nat \<Rightarrow> CheckOptions \<Rightarrow> world \<Rightarrow> (error + unit) \<times> world" where
  "allMetricsCheck pf cl checkRunId options w =
     (case getBucket pf w of
        (bucket, w1) \<Rightarrow> allMetricsCheck_loop pf cl checkRunId options bucket w1)"

definition cancel_request :: "platform \<Rightarrow> nat \<Rightarrow> CheckOptions \<Rightarrow> world \<Rightarrow> update_req" where
  "cancel_request pf checkRunId options w =
     \<lparr>u_owner = owner options, u_repo = repo options, u_name = name options,
      check_run_id = checkRunId,
      status = ''completed'',
      conclusion = Some ''cancelled'',
      completed_at = Some (Date_now pf (length (trace w))),
      output_of = \<lparr>o_title = name options, o_summary = ''Unhandled error'',
                   o_text = ''Check was cancelled due to unhandled error. Check the Action logs for details.'',
                   o_annotations = None\<rparr>\<rparr>"

definition cancelCheck ::
    "platform \<Rightarrow> client \<Rightarrow> nat \<Rightarrow> CheckOptions \<Rightarrow> world \<Rightarrow> (error + unit) \<times> world" where
  "cancelCheck pf cl checkRunId options w = send_update cl (cancel_request pf checkRunId options w) w"

text \<open>\<^verbatim>\<open>dumpToStdout\<close>: one pretty-printed entry per stored record, in order.\<close>

definition dumpToStdout :: "platform \<Rightarrow> world \<Rightarrow> world" where
  "dumpToStdout pf w = w\<lparr>trace := trace w @ map (\<lambda>json_metric. Info (JSON_stringify pf json_metric)) (file_jsons w)\<rparr>"

text \<open>A string of the environment is truthy when it is set and not empty.\<close>

definition truthy_env :: "string option \<Rightarrow> bool" where
  "truthy_env v = (case v of None \<Rightarrow> False | Some s \<Rightarrow> s \<noteq> [])"

definition fork_messages :: "platform \<Rightarrow> error \<Rightarrow> event list" where
  "fork_messages pf e =
     [ErrorLog (''Unable to create the prospective summary! Reason: '' @ Error_toString pf e),
      Warning ''It seems that this Action is executed from the forked repository.'',
      Warning ''GitHub Actions are not allowed to create Check annotations, when executed for a forked repos. See https://github.com/Luni-4/rust-code-analysis-check#limitations for details.'',
      Info ''Posting the prospective summary here instead.'']"

text \<open>
  The body of the second \<^verbatim>\<open>try\<close> block of \<^verbatim>\<open>executeCheck\<close>: the global
  metrics alone when no annotation is pending, the buckets otherwise.
\<close>

definition completed_path ::
    "platform \<Rightarrow> client \<Rightarrow> nat \<Rightarrow> CheckOptions \<Rightarrow> world \<Rightarrow> (error + unit) \<times> world" where
  "completed_path pf cl checkRunId options w =
     (if length (annotations w) = 0
      then globalMetricsCheck pf cl checkRunId options w
      else allMetricsCheck pf cl checkRunId options w)"

text \<open>
  \<^verbatim>\<open>executeCheck\<close>. A failed create is absorbed when \<^verbatim>\<open>GITHUB_HEAD_REF\<close> is truthy
  and rethrown otherwise. An error of the metrics check is followed by
  \<^verbatim>\<open>cancelCheck\<close>; when that call raises too, its error is the one that leaves.
\<close>

definition executeCheck ::
    "platform \<Rightarrow> client \<Rightarrow> CheckOptions \<Rightarrow> world \<Rightarrow> (error + unit) \<times> world" where
  "executeCheck pf cl options w =
     (case createCheck cl options w of
        (Inl e, w1) \<Rightarrow>
          (if truthy_env (GITHUB_HEAD_REF pf)
           then (Inr (), dumpToStdout pf (w1\<lparr>trace := trace w1 @ fork_messages pf e\<rparr>))
           else (Inl e, w1))
      | (Inr checkRunId, w1) \<Rightarrow>
          (case completed_path pf cl checkRunId options w1 of
             (Inr u, w2) \<Rightarrow> (Inr (), w2)
           | (Inl e, w2) \<Rightarrow>
               (case cancelCheck pf cl checkRunId options w2 of
                  (Inl e', w3) \<Rightarrow> (Inl e', w3)
                | (Inr u, w3) \<Rightarrow> (Inl e, w3))))"

section \<open>Parsing a line (\<^verbatim>\<open>src/unnamed/part_001\<close>)\<close>

text \<open>
  \<^verbatim>\<open>Object.assign({}, v)\<close>: a new object with the own enumerable properties of
  \<open>v\<close>: those of an object, the indexed elements of an array or a string, none of
  any other value.
\<close>

definition index_keys :: "platform \<Rightarrow> nat \<Rightarrow> string list" where
  "index_keys pf n = map (\<lambda>i. Number_toString pf (of_nat i)) [0..<n]"

fun Object_assign :: "platform \<Rightarrow> json \<Rightarrow> json" where
  "Object_assign pf (JObj kv) = JObj kv"
| "Object_assign pf (JArr xs) = JObj (zip (index_keys pf (length xs)) xs)"
| "Object_assign pf (JStr s) = JObj (zip (index_keys pf (length s)) (map (\<lambda>c. JStr [c]) s))"
| "Object_assign pf v = JObj []"

text \<open>\<^verbatim>\<open>getMetrics\<close> (lines 367-420): one template literal over the metrics.\<close>

definition getMetrics :: "platform \<Rightarrow> jsval \<Rightarrow> error + string" where
  "getMetrics pf metrics =
     template pf metrics
      [Lit ''Nargs: '',
       Sub [''nargs''],
       Lit ''\<newline>\<newline>  Nexits: '',
       Sub [''nexits''],
       Lit ''\<newline>\<newline>  Cognitive: '',
       Sub [''cognitive''],
       Lit ''\<newline>  <details>\<newline>  <summary>Cyclomatic</summary>\<newline>\<newline>  - Sum: '',
       Sub [''cyclomatic'', ''sum''],
       Lit ''\<newline>  - Average: '',
       Sub [''cyclomatic'', ''average''],
       Lit ''\<newline>  </details>\<newline>  <details>\<newline>  <summary>Loc</summary>\<newline>\<newline>  - Sloc: '',
       Sub [''loc'', ''sloc''],
       Lit ''\<newline>  - Ploc: '',
       Sub [''loc'', ''ploc''],
       Lit ''\<newline>  - Lloc: '',
       Sub [''loc'', ''lloc''],
       Lit ''\<newline>  - Cloc: '',
       Sub [''loc'', ''cloc''],
       Lit ''\<newline>  - Blank: '',
       Sub [''loc'', ''blank''],
       Lit ''\<newline>  </details>\<newline>  <details>\<newline>  <summary>Nom</summary>\<newline>\<newline>  - Functions: '',
       Sub [''nom'', ''functions''],
       Lit ''\<newline>  - Closures: '',
       Sub [''nom'', ''closures''],
       Lit ''\<newline>  - Total: '',
       Sub [''nom'', ''total''],
       Lit ''\<newline>  </details>\<newline>  <details>\<newline>  <summary>Halstead</summary>\<newline>\<newline>  - n1: '',
       Sub [''halstead'', ''n1''],
       Lit ''\<newline>  - N1: '',
       Sub [''halstead'', ''N1''],
       Lit ''\<newline>  - n2: '',
       Sub [''halstead'', ''n2''],
       Lit ''\<newline>  - N2: '',
       Sub [''halstead'', ''N2''],
       Lit ''\<newline>  - Length: '',
       Sub [''halstead'', ''length''],
       Lit ''\<newline>  - Estimated program length: '',
       Sub [''halstead'', ''estimated_program_length''],
       Lit ''\<newline>  - Purity ratio: '',
       Sub [''halstead'', ''purity_ratio''],
       Lit ''\<newline>  - Vocabulary: '',
       Sub [''halstead'', ''vocabulary''],
       Lit ''\<newline>  - Volume: '',
       Sub [''halstead'', ''volume''],
       Lit ''\<newline>  - Difficulty: '',
       Sub [''halstead'', ''difficulty''],
       Lit ''\<newline>  - Level: '',
       Sub [''halstead'', ''level''],
       Lit ''\<newline>  - Effort: '',
       Sub [''halstead'', ''effort''],
       Lit ''\<newline>  - Time: '',
       Sub [''halstead'', ''time''],
       Lit ''\<newline>  - Bugs: '',
       Sub [''halstead'', ''bugs''],
       Lit ''\<newline>  </details>\<newline>  <details>\<newline>  <summary>Maintainability Index</summary>\<newline>\<newline>  - Original: '',
       Sub [''mi'', ''mi_original''],
       Lit ''\<newline>  - Visual studio: '',
       Sub [''mi'', ''mi_visual_studio''],
       Lit ''\<newline>  - Sei: '',
       Sub [''mi'', ''mi_sei''],
       Lit ''\<newline>  </details>'']"

text \<open>\<^verbatim>\<open>getFileMetrics\<close> (lines 348-354): the name and the metrics of the record.\<close>

definition getFileMetrics :: "platform \<Rightarrow> jsval \<Rightarrow> error + string" where
  "getFileMetrics pf contents =
     (case get contents ''name'' of Inl e \<Rightarrow> Inl e | Inr v_name \<Rightarrow>
      case get contents ''metrics'' of Inl e \<Rightarrow> Inl e | Inr v_metrics \<Rightarrow>
      case getMetrics pf v_metrics of Inl e \<Rightarrow> Inl e | Inr text_metrics \<Rightarrow>
        Inr (''<details>\<newline><summary><b>'' @ ToString pf v_name
             @ ''</b></summary>\<newline>\<newline>'' @ text_metrics @ ''\<newline></details>''))"

text \<open>
  \<^verbatim>\<open>getAnnotationMetrics\<close> (lines 357-364) returns a fixed text; the rendering of
  its argument is commented out in the source.
\<close>

definition getAnnotationMetrics :: "jsval \<Rightarrow> string" where
  "getAnnotationMetrics unused_metrics = ''Hello''"

text \<open>
  \<^verbatim>\<open>addAnnotation\<close> (lines 317-331): the object literal reads its fields in order and
  the annotation is pushed on the pending list.
\<close>

definition addAnnotation :: "jsval \<Rightarrow> annotation list \<Rightarrow> (error + unit) \<times> annotation list" where
  "addAnnotation contents anns =
     (case get contents ''name'' of Inl e \<Rightarrow> (Inl e, anns) | Inr v_path \<Rightarrow>
      case get contents ''start_line'' of Inl e \<Rightarrow> (Inl e, anns) | Inr v_start \<Rightarrow>
      case get contents ''end_line'' of Inl e \<Rightarrow> (Inl e, anns) | Inr v_end \<Rightarrow>
      case get contents ''name'' of Inl e \<Rightarrow> (Inl e, anns) | Inr v_title \<Rightarrow>
      case get contents ''metrics'' of Inl e \<Rightarrow> (Inl e, anns) | Inr v_metrics \<Rightarrow>
        (Inr (), anns @ [\<lparr>path = v_path, start_line = v_start, end_line = v_end,
                           annotation_level = ''notice'', title = v_title,
                           message = getAnnotationMetrics v_metrics\<rparr>]))"

text \<open>The test \<^verbatim>\<open>v.spaces.length > 0\<close> and the values of \<^verbatim>\<open>for (... of v.spaces)\<close>.\<close>

definition spaces_nonempty :: "platform \<Rightarrow> jsval \<Rightarrow> error + bool" where
  "spaces_nonempty pf v =
     (case get v ''spaces'' of Inl e \<Rightarrow> Inl e | Inr sp \<Rightarrow>
      case get sp ''length'' of Inl e \<Rightarrow> Inl e | Inr len \<Rightarrow> Inr (gt_zero pf len))"

definition spaces_iter :: "jsval \<Rightarrow> error + json list" where
  "spaces_iter v = (case get v ''spaces'' of Inl e \<Rightarrow> Inl e | Inr sp \<Rightarrow> iter sp)"

text \<open>
  \<^verbatim>\<open>makeAnnotations\<close> (lines 295-314). The loop body parses the element itself
  (\<^verbatim>\<open>JSON.parse(space)\<close>, which first turns its argument into a string), adds the
  annotation of the parsed value and descends into its \<^verbatim>\<open>spaces\<close>. The recursion
  follows what the parser returns, so nothing in the source bounds it: not returning is
  the value \<open>None\<close>. The second component is the pending list as the call leaves it,
  also when it raises.
\<close>

partial_function (option) makeAnnotations_loop ::
    "platform \<Rightarrow> json list \<Rightarrow> annotation list \<Rightarrow> ((error + unit) \<times> annotation list) option" where
  "makeAnnotations_loop pf items anns =
     (case items of
        [] \<Rightarrow> Some (Inr (), anns)
      | space # rest \<Rightarrow>
          (case JSON_parse pf (json_str pf space) of
             None \<Rightarrow> Some (Inl SyntaxError, anns)
           | Some space_obj \<Rightarrow>
               (case addAnnotation (Some space_obj) anns of
                  (Inl e, anns1) \<Rightarrow> Some (Inl e, anns1)
                | (Inr u, anns1) \<Rightarrow>
                    (case spaces_nonempty pf (Some space_obj) of
                       Inl e \<Rightarrow> Some (Inl e, anns1)
                     | Inr nonempty \<Rightarrow>
                         (if nonempty then
                            (case spaces_iter (Some space_obj) of
                               Inl e \<Rightarrow> Some (Inl e, anns1)
                             | Inr subspaces \<Rightarrow>
                                 Option.bind (makeAnnotations_loop pf subspaces anns1)
                                   (\<lambda>r. case r of
                                      (Inl e, anns2) \<Rightarrow> Some (Inl e, anns2)
                                    | (Inr u, anns2) \<Rightarrow> makeAnnotations_loop pf rest anns2))
                          else makeAnnotations_loop pf rest anns1)))))"

definition makeAnnotations ::
    "platform \<Rightarrow> jsval \<Rightarrow> annotation list \<Rightarrow> ((error + unit) \<times> annotation list) option" where
  "makeAnnotations pf contents anns =
     (case spaces_iter contents of
        Inl e \<Rightarrow> Some (Inl e, anns)
      | Inr items \<Rightarrow> makeAnnotations_loop pf items anns)"

text \<open>
  \<^verbatim>\<open>parseJson\<close> (lines 94-114). Only \<^verbatim>\<open>JSON.parse(file)\<close> stands inside the
  \<^verbatim>\<open>try\<close>; the three steps after it run unguarded, each on the runner as the step
  before left it.
\<close>

definition parseJson :: "platform \<Rightarrow> world \<Rightarrow> string \<Rightarrow> ((error + unit) \<times> world) option" where
  "parseJson pf w file =
     (case JSON_parse pf file of
        None \<Rightarrow> Some (Inr (), emit (Debug ''Not a JSON, ignoring it'') w)
      | Some contents \<Rightarrow>
          (let w1 = w\<lparr>file_jsons := file_jsons w @ [Object_assign pf contents]\<rparr> in
           case getFileMetrics pf (Some contents) of
             Inl e \<Rightarrow> Some (Inl e, w1)
           | Inr rendered \<Rightarrow>
               (let w2 = w1\<lparr>file_metrics := file_metrics w1 @ [rendered]\<rparr> in
                case spaces_nonempty pf (Some contents) of
                  Inl e \<Rightarrow> Some (Inl e, w2)
                | Inr nonempty \<Rightarrow>
                    (if nonempty then
                       (case makeAnnotations pf (Some contents) (annotations w2) of
                          None \<Rightarrow> None
                        | Some (r, anns) \<Rightarrow> Some (r, w2\<lparr>annotations := anns\<rparr>))
                     else Some (Inr (), w2)))))"


section \<open>The renderer with nested spaces (\<^verbatim>\<open>src/unnamed/part_000\<close>, lines 516-656)\<close>

text \<open>
  The second runner of \<^verbatim>\<open>part_000\<close> has no annotations and renders the spaces
  into the report instead. Its three functions carry the names of the source; the two
  that \<^verbatim>\<open>part_001\<close> also defines, differently, end in \<open>0\<close> here.
\<close>

definition getMetrics0 :: "platform \<Rightarrow> jsval \<Rightarrow> error + string" where
  "getMetrics0 pf metrics =
     template pf metrics
      [Lit ''<details>\<newline>  <summary>Nargs</summary>\<newline>\<newline>  <ul><li>Sum: '',
       Sub [''nargs''],
       Lit ''</li></ul>\<newline>  </details>\<newline>  <details>\<newline>  <summary>Nexits</summary>\<newline>\<newline>  <ul><li>Sum: '',
       Sub [''nexits''],
       Lit ''</li></ul>\<newline>  </details>\<newline>  <details>\<newline>  <summary>Cognitive</summary>\<newline>\<newline>  <ul><li>Sum: '',
       Sub [''cognitive''],
       Lit ''</li></ul>\<newline>  </details>\<newline>  <details>\<newline>  <summary>Cyclomatic</summary>\<newline>\<newline>  <ul>\<newline>  <li>Sum: '',
       Sub [''cyclomatic'', ''sum''],
       Lit ''</li>\<newline>  <li>Average: '',
       Sub [''cyclomatic'', ''average''],
       Lit ''</li>\<newline>  </ul>\<newline>  </details>\<newline>  <details>\<newline>  <summary>Loc</summary>\<newline>\<newline>  <ul>\<newline>  <li>Sloc: '',
       Sub [''loc'', ''sloc''],
       Lit ''</li>\<newline>  <li>Ploc: '',
       Sub [''loc'', ''ploc''],
       Lit ''</li>\<newline>  <li>Lloc: '',
       Sub [''loc'', ''lloc''],
       Lit ''</li>\<newline>  <li>Cloc: '',
       Sub [''loc'', ''cloc''],
       Lit ''</li>\<newline>  <li>Blank: '',
       Sub [''loc'', ''blank''],
       Lit ''</li>\<newline>  </ul>\<newline>  </details>\<newline>  <details>\<newline>  <summary>Nom</summary>\<newline>\<newline>  <ul>\<newline>  <li>Functions: '',
       Sub [''nom'', ''functions''],
       Lit ''</li>\<newline>  <li>Closures: '',
       Sub [''nom'', ''closures''],
       Lit ''</li>\<newline>  <li>Total: '',
       Sub [''nom'', ''total''],
       Lit ''</li>\<newline>  </ul>\<newline>  </details>\<newline>  <details>\<newline>  <summary>Halstead</summary>\<newline>\<newline>  <ul>\<newline>  <li>n1: '',
       Sub [''halstead'', ''n1''],
       Lit ''</li>\<newline>  <li>N1: '',
       Sub [''halstead'', ''N1''],
       Lit ''</li>\<newline>  <li>n2: '',
       Sub [''halstead'', ''n2''],
       Lit ''</li>\<newline>  <li>N2: '',
       Sub [''halstead'', ''N2''],
       Lit ''</li>\<newline>  <li>Length: '',
       Sub [''halstead'', ''length''],
       Lit ''</li>\<newline>  <li>Estimated program length: '',
       Sub [''halstead'', ''estimated_program_length''],
       Lit ''</li>\<newline>  <li>Purity ratio: '',
       Sub [''halstead'', ''purity_ratio''],
       Lit ''</li>\<newline>  <li>Vocabulary: '',
       Sub [''halstead'', ''vocabulary''],
       Lit ''</li>\<newline>  <li>Volume: '',
       Sub [''halstead'', ''volume''],
       Lit ''</li>\<newline>  <li>Difficulty: '',
       Sub [''halstead'', ''difficulty''],
       Lit ''</li>\<newline>  <li>Level: '',
       Sub [''halstead'', ''level''],
       Lit ''</li>\<newline>  <li>Effort: '',
       Sub [''halstead'', ''effort''],
       Lit ''</li>\<newline>  <li>Time: '',
       Sub [''halstead'', ''time''],
       Lit ''</li>\<newline>  <li>Bugs: '',
       Sub [''halstead'', ''bugs''],
       Lit ''</li>\<newline>  </ul>\<newline>  </details>\<newline>  <details>\<newline>  <summary>Maintainability Index</summary>\<newline>\<newline>  <ul>\<newline>  <li>Original: '',
       Sub [''mi'', ''mi_original''],
       Lit ''</li>\<newline>  <li>Visual studio: '',
       Sub [''mi'', ''mi_visual_studio''],
       Lit ''</li>\<newline>  <li>Sei: '',
       Sub [''mi'', ''mi_sei''],
       Lit ''</li>\<newline>  </ul>\<newline>  </details>'']"

text \<open>
  The name a space is shown under: \<^verbatim>\<open>'unnamed space'\<close> when \<^verbatim>\<open>space.name\<close> is
  strictly equal to \<^verbatim>\<open>'<anonymous>'\<close>, the name itself otherwise.
\<close>

definition space_name :: "platform \<Rightarrow> jsval \<Rightarrow> error + string" where
  "space_name pf space =
     (case get space ''name'' of Inl e \<Rightarrow> Inl e | Inr v \<Rightarrow>
        if v = Some (JStr ''<anonymous>'') then Inr ''unnamed space''
        else (case get space ''name'' of Inl e \<Rightarrow> Inl e | Inr v' \<Rightarrow> Inr (ToString pf v')))"

definition space_open :: "string \<Rightarrow> string \<Rightarrow> string" where
  "space_open nm text_metrics =
     ''<li><details>\<newline><summary><b>'' @ nm
     @ ''</b></summary>\<newline>\<newline><ul>\<newline><li>\<newline><details>\<newline><summary><b>Metrics</b></summary>\<newline>\<newline>  ''
     @ text_metrics @ ''\<newline></details></li>\<newline>''"

definition subspaces_open :: string where
  "subspaces_open = ''<li><details>\<newline><summary><b>Spaces</b></summary>\<newline>\<newline>''"

definition subspaces_close :: string where
  "subspaces_close = ''</details></li></ul>\<newline>''"

definition space_close :: string where
  "space_close = ''</details></li>\<newline>''"

lemma size_map_of: "map_of kv k = Some v \<Longrightarrow> size v < size (JObj kv)"
  by (induction kv) (auto split: if_splits)

lemma sum_size_le_size_list: "sum_list (map size xs) \<le> size_list size (xs :: json list)"
  by (induction xs) auto

lemma spaces_iter_smaller:
  assumes "spaces_iter (Some space) = Inr subspaces"
  shows "sum_list (map size subspaces) < size space"
proof (cases space)
  case (JObj kv)
  show ?thesis
  proof (cases "map_of kv ''spaces''")
    case None
    with JObj assms show ?thesis by (simp add: spaces_iter_def)
  next
    case (Some sp)
    then have less: "size sp < size space"
      using JObj by (simp only: size_map_of)
    show ?thesis
    proof (cases sp)
      case (JArr xs)
      with JObj Some assms have "subspaces = xs" by (simp add: spaces_iter_def)
      moreover have "sum_list (map size xs) \<le> size sp"
        using JArr sum_size_le_size_list [of xs] by simp
      ultimately show ?thesis using less by simp
    next
      case (JStr str)
      with JObj Some assms have "subspaces = map (\<lambda>c. JStr [c]) str" by (simp add: spaces_iter_def)
      then have "sum_list (map size subspaces) = 0" by (simp add: comp_def)
      with less show ?thesis by linarith
    qed (use JObj Some assms in \<open>simp_all add: spaces_iter_def\<close>)
  qed
qed (use assms in \<open>simp_all add: spaces_iter_def\<close>)

text \<open>
  \<^verbatim>\<open>getSpaceMetrics\<close> (lines 542-580): the loop over the spaces, with the string built
  so far. A space with spaces of its own renders them by the recursive call between the
  heading and its closing tags.
\<close>

function getSpaceMetrics_loop :: "platform \<Rightarrow> json list \<Rightarrow> string \<Rightarrow> error + string" where
  "getSpaceMetrics_loop pf [] spaces_str = Inr spaces_str"
| "getSpaceMetrics_loop pf (space # rest) spaces_str =
     (case space_name pf (Some space) of Inl e \<Rightarrow> Inl e | Inr nm \<Rightarrow>
      case get (Some space) ''metrics'' of Inl e \<Rightarrow> Inl e | Inr v_metrics \<Rightarrow>
      case getMetrics0 pf v_metrics of Inl e \<Rightarrow> Inl e | Inr text_metrics \<Rightarrow>
      case spaces_nonempty pf (Some space) of Inl e \<Rightarrow> Inl e | Inr nonempty \<Rightarrow>
        if nonempty then
          (case spaces_iter (Some space) of Inl e \<Rightarrow> Inl e | Inr subspaces \<Rightarrow>
           case getSpaceMetrics_loop pf subspaces ''<ul>'' of Inl e \<Rightarrow> Inl e | Inr inner \<Rightarrow>
             getSpaceMetrics_loop pf rest
               (spaces_str @ space_open nm text_metrics @ subspaces_open
                @ (inner @ ''</ul>'') @ subspaces_close @ space_close))
        else getSpaceMetrics_loop pf rest (spaces_str @ space_open nm text_metrics @ space_close))"
  by pat_completeness auto
termination
proof (relation "measures [\<lambda>(pf, items, spaces_str). sum_list (map size items),
                           \<lambda>(pf, items, spaces_str). length items]")
qed (auto dest: spaces_iter_smaller)

definition getSpaceMetrics :: "platform \<Rightarrow> jsval \<Rightarrow> error + string" where
  "getSpaceMetrics pf spaces =
     (case iter spaces of Inl e \<Rightarrow> Inl e | Inr items \<Rightarrow>
      case getSpaceMetrics_loop pf items ''<ul>'' of Inl e \<Rightarrow> Inl e | Inr spaces_str \<Rightarrow>
        Inr (spaces_str @ ''</ul>''))"

text \<open>\<^verbatim>\<open>getFileMetrics\<close> of \<^verbatim>\<open>part_000\<close> (lines 516-539).\<close>

definition file_open :: "string \<Rightarrow> string \<Rightarrow> string" where
  "file_open nm text_metrics =
     ''<details>\<newline><summary><b>'' @ nm
     @ ''</b></summary>\<newline>\<newline><ul>\<newline><li>\<newline>  <details>\<newline>  <summary><b>Global</b></summary>\<newline>\<newline>  ''
     @ text_metrics @ ''\<newline>  </details>\<newline></li>\<newline>''"

definition file_spaces_close :: string where
  "file_spaces_close = ''\<newline></details></li>\<newline>''"

definition file_close :: string where
  "file_close = ''</details></ul>''"

definition getFileMetrics0 :: "platform \<Rightarrow> jsval \<Rightarrow> error + string" where
  "getFileMetrics0 pf contents =
     (case get contents ''name'' of Inl e \<Rightarrow> Inl e | Inr v_name \<Rightarrow>
      case get contents ''metrics'' of Inl e \<Rightarrow> Inl e | Inr v_metrics \<Rightarrow>
      case getMetrics0 pf v_metrics of Inl e \<Rightarrow> Inl e | Inr text_metrics \<Rightarrow>
      case spaces_nonempty pf contents of Inl e \<Rightarrow> Inl e | Inr nonempty \<Rightarrow>
        if nonempty then
          (case get contents ''spaces'' of Inl e \<Rightarrow> Inl e | Inr sp \<Rightarrow>
           case getSpaceMetrics pf sp of Inl e \<Rightarrow> Inl e | Inr inner \<Rightarrow>
             Inr (file_open (ToString pf v_name) text_metrics @ subspaces_open @ inner
                  @ file_spaces_close @ file_close))
        else Inr (file_open (ToString pf v_name) text_metrics @ file_close))"


section \<open>The run (\<^verbatim>\<open>src/src/main.ts\<close>)\<close>

text \<open>
  \<^verbatim>\<open>run\<close>, from the point where the analysis tool has been found and has answered
  the version query. \<^verbatim>\<open>program.call\<close> hands its arguments to the process library
  (\<^verbatim>\<open>exec.exec\<close>), which is not part of the repository, so what the second call
  does is an input of the model. It is given the listener and the runner; it resolves
  with the exit code of the tool (\<^verbatim>\<open>ignoreReturnCode\<close> is set) or rejects, and it
  leaves the runner as its calls of the listener have left it. On which lines it calls
  the listener, and what it does when the listener raises, is for the library to
  decide: the listener of the model returns its error to the library.
\<close>

record Input =
  input_token :: string
  input_directory :: string
  input_name :: string

record github_context =
  context_sha :: string
  pull_request_head_sha :: "string option"
  repo_owner :: string
  repo_repo :: string

type_synonym listener = "string \<Rightarrow> world \<Rightarrow> ((error + unit) \<times> world) option"

record rca_process =
  rcaVersion :: string
  call :: "listener \<Rightarrow> world \<Rightarrow> ((error + int) \<times> world) option"

definition new_CheckRunner :: world where
  "new_CheckRunner = \<lparr>annotations = [], file_metrics = [], file_jsons = [], trace = []\<rparr>"

text \<open>
  The \<^verbatim>\<open>stdline\<close> listener: one call of \<^verbatim>\<open>runner.parseJson\<close> on the line it is
  given. It catches nothing.
\<close>

definition stdline_listener :: "platform \<Rightarrow> listener" where
  "stdline_listener pf file w = parseJson pf w file"

definition head_sha_of :: "github_context \<Rightarrow> string" where
  "head_sha_of ctx =
     (case pull_request_head_sha ctx of
        None \<Rightarrow> context_sha ctx
      | Some s \<Rightarrow> if s \<noteq> [] then s else context_sha ctx)"

definition check_options :: "platform \<Rightarrow> Input \<Rightarrow> github_context \<Rightarrow> rca_process \<Rightarrow> CheckOptions" where
  "check_options pf actionInput ctx program =
     \<lparr>token = input_token actionInput, name = input_name actionInput,
      owner = repo_owner ctx, repo = repo_repo ctx, head_sha = head_sha_of ctx,
      started_at = Date_now pf 0, rca_version = rcaVersion program\<rparr>"

definition exit_code_error :: "platform \<Rightarrow> int \<Rightarrow> error" where
  "exit_code_error pf code =
     Error (''rust-code-analysis-check had exited with the '' @ Number_toString pf (of_int code)
            @ '' exit code'')"

text \<open>
  The group is closed in a \<^verbatim>\<open>finally\<close> block, so also when the call rejects, and
  then the error of the call leaves \<^verbatim>\<open>run\<close>. Otherwise the reporting cycle is
  awaited, and the exit code is tested after it.
\<close>

definition run ::
    "platform \<Rightarrow> client \<Rightarrow> Input \<Rightarrow> github_context \<Rightarrow> rca_process \<Rightarrow> ((error + unit) \<times> world) option" where
  "run pf cl actionInput ctx program =
     (case call program (stdline_listener pf)
             (emit (StartGroup ''Executing rust-code-analysis-cli (JSON output)'') new_CheckRunner) of
        None \<Rightarrow> None
      | Some (Inl e, w1) \<Rightarrow> Some (Inl e, emit EndGroup w1)
      | Some (Inr RcaExitCode, w1) \<Rightarrow>
          (case executeCheck pf cl (check_options pf actionInput ctx program) (emit EndGroup w1) of
             (Inl e, w2) \<Rightarrow> Some (Inl e, w2)
           | (Inr u, w2) \<Rightarrow>
               if RcaExitCode \<noteq> 0
               then Some (Inl (exit_code_error pf RcaExitCode), w2)
               else Some (Inr (), w2)))"

section \<open>Well-formed records\<close>

text \<open>
  The records the analysis tool prints, as the interfaces \<^verbatim>\<open>Metrics\<close> and
  \<^verbatim>\<open>RcaFile\<close> of the source declare them (a field of a nested group is named
  \<open>group_field\<close>), and their encoding as JSON values with the spaces as nested
  objects.
\<close>

record Metrics =
  nargs :: rat
  nexits :: rat
  cognitive :: rat
  cyclomatic_sum :: rat
  cyclomatic_average :: rat
  halstead_n1 :: rat
  halstead_N1 :: rat
  halstead_n2 :: rat
  halstead_N2 :: rat
  halstead_length :: rat
  halstead_estimated_program_length :: rat
  halstead_purity_ratio :: rat
  halstead_vocabulary :: rat
  halstead_volume :: rat
  halstead_difficulty :: rat
  halstead_level :: rat
  halstead_effort :: rat
  halstead_time :: rat
  halstead_bugs :: rat
  loc_sloc :: rat
  loc_ploc :: rat
  loc_lloc :: rat
  loc_cloc :: rat
  loc_blank :: rat
  nom_functions :: rat
  nom_closures :: rat
  nom_total :: rat
  mi_mi_original :: rat
  mi_mi_sei :: rat
  mi_mi_visual_studio :: rat

datatype RcaFile =
  RcaFile (f_name: string) (f_start_line: rat) (f_end_line: rat) (f_kind: string)
          (f_metrics: Metrics) (f_spaces: "RcaFile list")

definition enc_metrics :: "Metrics \<Rightarrow> json" where
  "enc_metrics m = JObj
     [(''nargs'', JNum (nargs m)),
      (''nexits'', JNum (nexits m)),
      (''cognitive'', JNum (cognitive m)),
      (''cyclomatic'', JObj
          [(''sum'', JNum (cyclomatic_sum m)),
           (''average'', JNum (cyclomatic_average m))]),
      (''halstead'', JObj
          [(''n1'', JNum (halstead_n1 m)),
           (''N1'', JNum (halstead_N1 m)),
           (''n2'', JNum (halstead_n2 m)),
           (''N2'', JNum (halstead_N2 m)),
           (''length'', JNum (halstead_length m)),
           (''estimated_program_length'', JNum (halstead_estimated_program_length m)),
           (''purity_ratio'', JNum (halstead_purity_ratio m)),
           (''vocabulary'', JNum (halstead_vocabulary m)),
           (''volume'', JNum (halstead_volume m)),
           (''difficulty'', JNum (halstead_difficulty m)),
           (''level'', JNum (halstead_level m)),
           (''effort'', JNum (halstead_effort m)),
           (''time'', JNum (halstead_time m)),
           (''bugs'', JNum (halstead_bugs m))]),
      (''loc'', JObj
          [(''sloc'', JNum (loc_sloc m)),
           (''ploc'', JNum (loc_ploc m)),
           (''lloc'', JNum (loc_lloc m)),
           (''cloc'', JNum (loc_cloc m)),
           (''blank'', JNum (loc_blank m))]),
      (''nom'', JObj
          [(''functions'', JNum (nom_functions m)),
           (''closures'', JNum (nom_closures m)),
           (''total'', JNum (nom_total m))]),
      (''mi'', JObj
          [(''mi_original'', JNum (mi_mi_original m)),
           (''mi_sei'', JNum (mi_mi_sei m)),
           (''mi_visual_studio'', JNum (mi_mi_visual_studio m))])]"

fun enc_obj :: "RcaFile \<Rightarrow> json" where
  "enc_obj (RcaFile nm line1 line2 kind m children) =
     JObj [(''name'', JStr nm), (''start_line'', JNum line1), (''end_line'', JNum line2),
           (''kind'', JStr kind), (''metrics'', enc_metrics m),
           (''spaces'', JArr (map enc_obj children))]"

text \<open>
  The report of \<^verbatim>\<open>part_000\<close> in the words of the specification: the metrics of a
  record, then, only when it has children, a section with one block per child, in
  order, each rendered the same way.
\<close>

definition metrics_html :: "platform \<Rightarrow> Metrics \<Rightarrow> string" where
  "metrics_html pf m =
     ''<details>\<newline>  <summary>Nargs</summary>\<newline>\<newline>  <ul><li>Sum: ''
     @ Number_toString pf (nargs m)
     @ ''</li></ul>\<newline>  </details>\<newline>  <details>\<newline>  <summary>Nexits</summary>\<newline>\<newline>  <ul><li>Sum: ''
     @ Number_toString pf (nexits m)
     @ ''</li></ul>\<newline>  </details>\<newline>  <details>\<newline>  <summary>Cognitive</summary>\<newline>\<newline>  <ul><li>Sum: ''
     @ Number_toString pf (cognitive m)
     @ ''</li></ul>\<newline>  </details>\<newline>  <details>\<newline>  <summary>Cyclomatic</summary>\<newline>\<newline>  <ul>\<newline>  <li>Sum: ''
     @ Number_toString pf (cyclomatic_sum m)
     @ ''</li>\<newline>  <li>Average: ''
     @ Number_toString pf (cyclomatic_average m)
     @ ''</li>\<newline>  </ul>\<newline>  </details>\<newline>  <details>\<newline>  <summary>Loc</summary>\<newline>\<newline>  <ul>\<newline>  <li>Sloc: ''
     @ Number_toString pf (loc_sloc m)
     @ ''</li>\<newline>  <li>Ploc: ''
     @ Number_toString pf (loc_ploc m)
     @ ''</li>\<newline>  <li>Lloc: ''
     @ Number_toString pf (loc_lloc m)
     @ ''</li>\<newline>  <li>Cloc: ''
     @ Number_toString pf (loc_cloc m)
     @ ''</li>\<newline>  <li>Blank: ''
     @ Number_toString pf (loc_blank m)
     @ ''</li>\<newline>  </ul>\<newline>  </details>\<newline>  <details>\<newline>  <summary>Nom</summary>\<newline>\<newline>  <ul>\<newline>  <li>Functions: ''
     @ Number_toString pf (nom_functions m)
     @ ''</li>\<newline>  <li>Closures: ''
     @ Number_toString pf (nom_closures m)
     @ ''</li>\<newline>  <li>Total: ''
     @ Number_toString pf (nom_total m)
     @ ''</li>\<newline>  </ul>\<newline>  </details>\<newline>  <details>\<newline>  <summary>Halstead</summary>\<newline>\<newline>  <ul>\<newline>  <li>n1: ''
     @ Number_toString pf (halstead_n1 m)
     @ ''</li>\<newline>  <li>N1: ''
     @ Number_toString pf (halstead_N1 m)
     @ ''</li>\<newline>  <li>n2: ''
     @ Number_toString pf (halstead_n2 m)
     @ ''</li>\<newline>  <li>N2: ''
     @ Number_toString pf (halstead_N2 m)
     @ ''</li>\<newline>  <li>Length: ''
     @ Number_toString pf (halstead_length m)
     @ ''</li>\<newline>  <li>Estimated program length: ''
     @ Number_toString pf (halstead_estimated_program_length m)
     @ ''</li>\<newline>  <li>Purity ratio: ''
     @ Number_toString pf (halstead_purity_ratio m)
     @ ''</li>\<newline>  <li>Vocabulary: ''
     @ Number_toString pf (halstead_vocabulary m)
     @ ''</li>\<newline>  <li>Volume: ''
     @ Number_toString pf (halstead_volume m)
     @ ''</li>\<newline>  <li>Difficulty: ''
     @ Number_toString pf (halstead_difficulty m)
     @ ''</li>\<newline>  <li>Level: ''
     @ Number_toString pf (halstead_level m)
     @ ''</li>\<newline>  <li>Effort: ''
     @ Number_toString pf (halstead_effort m)
     @ ''</li>\<newline>  <li>Time: ''
     @ Number_toString pf (halstead_time m)
     @ ''</li>\<newline>  <li>Bugs: ''
     @ Number_toString pf (halstead_bugs m)
     @ ''</li>\<newline>  </ul>\<newline>  </details>\<newline>  <details>\<newline>  <summary>Maintainability Index</summary>\<newline>\<newline>  <ul>\<newline>  <li>Original: ''
     @ Number_toString pf (mi_mi_original m)
     @ ''</li>\<newline>  <li>Visual studio: ''
     @ Number_toString pf (mi_mi_visual_studio m)
     @ ''</li>\<newline>  <li>Sei: ''
     @ Number_toString pf (mi_mi_sei m)
     @ ''</li>\<newline>  </ul>\<newline>  </details>''"

definition shown_name :: "string \<Rightarrow> string" where
  "shown_name nm = (if nm = ''<anonymous>'' then ''unnamed space'' else nm)"

fun space_block :: "platform \<Rightarrow> RcaFile \<Rightarrow> string" where
  "space_block pf (RcaFile nm line1 line2 kind m children) =
     space_open (shown_name nm) (metrics_html pf m)
     @ (if children = [] then []
        else subspaces_open @ (''<ul>'' @ concat (map (space_block pf) children) @ ''</ul>'')
             @ subspaces_close)
     @ space_close"

definition spaces_section :: "platform \<Rightarrow> RcaFile list \<Rightarrow> string" where
  "spaces_section pf children = ''<ul>'' @ concat (map (space_block pf) children) @ ''</ul>''"

definition file_block :: "platform \<Rightarrow> RcaFile \<Rightarrow> string" where
  "file_block pf file =
     file_open (f_name file) (metrics_html pf (f_metrics file))
     @ (if f_spaces file = [] then []
        else subspaces_open @ spaces_section pf (f_spaces file) @ file_spaces_close)
     @ file_close"


text \<open>
  The annotation \<^verbatim>\<open>addAnnotation\<close> builds from a well-formed space, the spaces below a
  record in depth-first document order, and the values that hold a record with its
  spaces as JSON texts at every level (the form \<^verbatim>\<open>makeAnnotations\<close> parses).
\<close>

definition annotation_of :: "RcaFile \<Rightarrow> annotation" where
  "annotation_of space =
     \<lparr>path = Some (JStr (f_name space)), start_line = Some (JNum (f_start_line space)),
      end_line = Some (JNum (f_end_line space)), annotation_level = ''notice'',
      title = Some (JStr (f_name space)), message = ''Hello''\<rparr>"

fun spaces_below :: "RcaFile \<Rightarrow> RcaFile list" where
  "spaces_below (RcaFile nm line1 line2 kind m children) =
     concat (map (\<lambda>c. c # spaces_below c) children)"

fun text_spaces :: "platform \<Rightarrow> RcaFile \<Rightarrow> json \<Rightarrow> bool" where
  "text_spaces pf (RcaFile nm line1 line2 kind m children) j =
     (get (Some j) ''name'' = Inr (Some (JStr nm)) \<and>
      get (Some j) ''start_line'' = Inr (Some (JNum line1)) \<and>
      get (Some j) ''end_line'' = Inr (Some (JNum line2)) \<and>
      get (Some j) ''metrics'' = Inr (Some (enc_metrics m)) \<and>
      (case get (Some j) ''spaces'' of
         Inr (Some (JArr xs)) \<Rightarrow>
           list_all2 (\<lambda>c x. case x of
                        JStr s \<Rightarrow> (case JSON_parse pf s of
                                     Some j' \<Rightarrow> text_spaces pf c j'
                                   | None \<Rightarrow> False)
                      | _ \<Rightarrow> False) children xs
       | _ \<Rightarrow> False))"

section \<open>What a cycle sends\<close>

text \<open>
  The update requests a step has added to the log, the annotations a request carries,
  and the pages of at most 50 a list falls into.
\<close>

definition sent_since :: "world \<Rightarrow> world \<Rightarrow> update_req list" where
  "sent_since w w' = drop (length (updates_of (trace w))) (updates_of (trace w'))"

definition carried :: "update_req \<Rightarrow> annotation list" where
  "carried u = (case o_annotations (output_of u) of None \<Rightarrow> [] | Some bucket \<Rightarrow> bucket)"


text \<open>
  Every request of a list was accepted by the client, each after the ones sent before it.
\<close>

fun accepted :: "client \<Rightarrow> update_req list \<Rightarrow> update_req list \<Rightarrow> bool" where
  "accepted cl sent [] = True"
| "accepted cl sent (u # us) = (checks_update cl sent u = None \<and> accepted cl (sent @ [u]) us)"

function pages :: "'a list \<Rightarrow> 'a list list" where
  "pages xs = (if xs = [] then [] else take 50 xs # pages (drop 50 xs))"
  by pat_completeness auto
termination
  by (relation "measure length") auto

declare pages.simps [simp del]


section \<open>Examples\<close>

text \<open>
  Records, lines, a platform, clients, options and pending annotations to run the
  definitions on. The lines are the JSON texts of the records. \<open>line_b\<close> holds its
  spaces as nested objects, the way the interface \<^verbatim>\<open>RcaFile\<close> describes a record;
  \<open>line_c\<close> holds its one space as a string, the JSON text of that space with its
  quotes escaped.
\<close>

definition example_metrics :: Metrics where
  "example_metrics =
     \<lparr>nargs = 1,
      nexits = 2,
      cognitive = 3,
      cyclomatic_sum = 4,
      cyclomatic_average = 5,
      halstead_n1 = 6,
      halstead_N1 = 7,
      halstead_n2 = 8,
      halstead_N2 = 9,
      halstead_length = 10,
      halstead_estimated_program_length = 11,
      halstead_purity_ratio = 12,
      halstead_vocabulary = 13,
      halstead_volume = 14,
      halstead_difficulty = 15,
      halstead_level = 16,
      halstead_effort = 17,
      halstead_time = 18,
      halstead_bugs = 19,
      loc_sloc = 20,
      loc_ploc = 21,
      loc_lloc = 22,
      loc_cloc = 23,
      loc_blank = 24,
      nom_functions = 25,
      nom_closures = 26,
      nom_total = 27,
      mi_mi_original = 28,
      mi_mi_sei = 29,
      mi_mi_visual_studio = 30\<rparr>"

definition closure_space :: RcaFile where
  "closure_space = RcaFile ''<anonymous>'' 4 5 ''closure'' example_metrics []"

definition function_f :: RcaFile where
  "function_f = RcaFile ''f'' 3 9 ''function'' example_metrics [closure_space]"

definition function_g :: RcaFile where
  "function_g = RcaFile ''g'' 12 20 ''function'' example_metrics []"

definition file_a :: RcaFile where
  "file_a = RcaFile ''a.rs'' 1 10 ''unit'' example_metrics []"

definition file_b :: RcaFile where
  "file_b = RcaFile ''b.rs'' 1 30 ''unit'' example_metrics [function_f, function_g]"

definition line_a :: string where
  "line_a = ''{\"name\":\"a.rs\",\"start_line\":1,\"end_line\":10,\"kind\":\"unit\",\"metrics\":{\"nargs\":1,\"nexits\":2,\"cognitive\":3,\"cyclomatic\":{\"sum\":4,\"average\":5},\"halstead\":{\"n1\":6,\"N1\":7,\"n2\":8,\"N2\":9,\"length\":10,\"estimated_program_length\":11,\"purity_ratio\":12,\"vocabulary\":13,\"volume\":14,\"difficulty\":15,\"level\":16,\"effort\":17,\"time\":18,\"bugs\":19},\"loc\":{\"sloc\":20,\"ploc\":21,\"lloc\":22,\"cloc\":23,\"blank\":24},\"nom\":{\"functions\":25,\"closures\":26,\"total\":27},\"mi\":{\"mi_original\":28,\"mi_sei\":29,\"mi_visual_studio\":30}},\"spaces\":[]}''"

definition line_b :: string where
  "line_b = ''{\"name\":\"b.rs\",\"start_line\":1,\"end_line\":30,\"kind\":\"unit\",\"metrics\":{\"nargs\":1,\"nexits\":2,\"cognitive\":3,\"cyclomatic\":{\"sum\":4,\"average\":5},\"halstead\":{\"n1\":6,\"N1\":7,\"n2\":8,\"N2\":9,\"length\":10,\"estimated_program_length\":11,\"purity_ratio\":12,\"vocabulary\":13,\"volume\":14,\"difficulty\":15,\"level\":16,\"effort\":17,\"time\":18,\"bugs\":19},\"loc\":{\"sloc\":20,\"ploc\":21,\"lloc\":22,\"cloc\":23,\"blank\":24},\"nom\":{\"functions\":25,\"closures\":26,\"total\":27},\"mi\":{\"mi_original\":28,\"mi_sei\":29,\"mi_visual_studio\":30}},\"spaces\":[{\"name\":\"f\",\"start_line\":3,\"end_line\":9,\"kind\":\"function\",\"metrics\":{\"nargs\":1,\"nexits\":2,\"cognitive\":3,\"cyclomatic\":{\"sum\":4,\"average\":5},\"halstead\":{\"n1\":6,\"N1\":7,\"n2\":8,\"N2\":9,\"length\":10,\"estimated_program_length\":11,\"purity_ratio\":12,\"vocabulary\":13,\"volume\":14,\"difficulty\":15,\"level\":16,\"effort\":17,\"time\":18,\"bugs\":19},\"loc\":{\"sloc\":20,\"ploc\":21,\"lloc\":22,\"cloc\":23,\"blank\":24},\"nom\":{\"functions\":25,\"closures\":26,\"total\":27},\"mi\":{\"mi_original\":28,\"mi_sei\":29,\"mi_visual_studio\":30}},\"spaces\":[{\"name\":\"<anonymous>\",\"start_line\":4,\"end_line\":5,\"kind\":\"closure\",\"metrics\":{\"nargs\":1,\"nexits\":2,\"cognitive\":3,\"cyclomatic\":{\"sum\":4,\"average\":5},\"halstead\":{\"n1\":6,\"N1\":7,\"n2\":8,\"N2\":9,\"length\":10,\"estimated_program_length\":11,\"purity_ratio\":12,\"vocabulary\":13,\"volume\":14,\"difficulty\":15,\"level\":16,\"effort\":17,\"time\":18,\"bugs\":19},\"loc\":{\"sloc\":20,\"ploc\":21,\"lloc\":22,\"cloc\":23,\"blank\":24},\"nom\":{\"functions\":25,\"closures\":26,\"total\":27},\"mi\":{\"mi_original\":28,\"mi_sei\":29,\"mi_visual_studio\":30}},\"spaces\":[]}]},{\"name\":\"g\",\"start_line\":12,\"end_line\":20,\"kind\":\"function\",\"metrics\":{\"nargs\":1,\"nexits\":2,\"cognitive\":3,\"cyclomatic\":{\"sum\":4,\"average\":5},\"halstead\":{\"n1\":6,\"N1\":7,\"n2\":8,\"N2\":9,\"length\":10,\"estimated_program_length\":11,\"purity_ratio\":12,\"vocabulary\":13,\"volume\":14,\"difficulty\":15,\"level\":16,\"effort\":17,\"time\":18,\"bugs\":19},\"loc\":{\"sloc\":20,\"ploc\":21,\"lloc\":22,\"cloc\":23,\"blank\":24},\"nom\":{\"functions\":25,\"closures\":26,\"total\":27},\"mi\":{\"mi_original\":28,\"mi_sei\":29,\"mi_visual_studio\":30}},\"spaces\":[]}]}''"

definition text_g :: string where
  "text_g = ''{\"name\":\"g\",\"start_line\":12,\"end_line\":20,\"kind\":\"function\",\"metrics\":{\"nargs\":1,\"nexits\":2,\"cognitive\":3,\"cyclomatic\":{\"sum\":4,\"average\":5},\"halstead\":{\"n1\":6,\"N1\":7,\"n2\":8,\"N2\":9,\"length\":10,\"estimated_program_length\":11,\"purity_ratio\":12,\"vocabulary\":13,\"volume\":14,\"difficulty\":15,\"level\":16,\"effort\":17,\"time\":18,\"bugs\":19},\"loc\":{\"sloc\":20,\"ploc\":21,\"lloc\":22,\"cloc\":23,\"blank\":24},\"nom\":{\"functions\":25,\"closures\":26,\"total\":27},\"mi\":{\"mi_original\":28,\"mi_sei\":29,\"mi_visual_studio\":30}},\"spaces\":[]}''"

definition record_c :: json where
  "record_c =
     JObj [(''name'', JStr ''c.rs''), (''start_line'', JNum 1), (''end_line'', JNum 30),
           (''kind'', JStr ''unit''), (''metrics'', enc_metrics example_metrics),
           (''spaces'', JArr [JStr text_g])]"

fun json_quote :: "string \<Rightarrow> string" where
  "json_quote [] = []"
| "json_quote (c # cs) = (if c = CHR 0x22 then [CHR 0x5C, CHR 0x22] else [c]) @ json_quote cs"

definition line_c :: string where
  "line_c = ''{\"name\":\"c.rs\",\"start_line\":1,\"end_line\":30,\"kind\":\"unit\",\"metrics\":{\"nargs\":1,\"nexits\":2,\"cognitive\":3,\"cyclomatic\":{\"sum\":4,\"average\":5},\"halstead\":{\"n1\":6,\"N1\":7,\"n2\":8,\"N2\":9,\"length\":10,\"estimated_program_length\":11,\"purity_ratio\":12,\"vocabulary\":13,\"volume\":14,\"difficulty\":15,\"level\":16,\"effort\":17,\"time\":18,\"bugs\":19},\"loc\":{\"sloc\":20,\"ploc\":21,\"lloc\":22,\"cloc\":23,\"blank\":24},\"nom\":{\"functions\":25,\"closures\":26,\"total\":27},\"mi\":{\"mi_original\":28,\"mi_sei\":29,\"mi_visual_studio\":30}},\"spaces\":[\"''
     @ json_quote text_g @ ''\"]}''"

text \<open>
  The example platform parses the lines above, \<^verbatim>\<open>null\<close> and \<^verbatim>\<open>42\<close> to the values
  they encode, and rejects every other string (\<^verbatim>\<open>[object Object]\<close> among them). It
  prints a number by the decimal digits of its integer part; its pretty printer is a
  stand-in that shows the name of a record.
\<close>

function show_nat :: "nat \<Rightarrow> string" where
  "show_nat n =
     (if n < 10 then [''0123456789'' ! n]
      else show_nat (n div 10) @ [''0123456789'' ! (n mod 10)])"
  by pat_completeness auto
termination
  by (relation "measure id") auto

declare show_nat.simps [simp del]

definition example_parse :: "string \<Rightarrow> json option" where
  "example_parse s =
     (if s = line_a then Some (enc_obj file_a)
      else if s = line_b then Some (enc_obj file_b)
      else if s = text_g then Some (enc_obj function_g)
      else if s = line_c then Some record_c
      else if s = ''null'' then Some JNull
      else if s = ''42'' then Some (JNum 42)
      else None)"

definition example_stringify :: "json \<Rightarrow> string" where
  "example_stringify j =
     (case j of
        JObj kv \<Rightarrow> (case map_of kv ''name'' of
                      Some (JStr nm) \<Rightarrow> ''{ name: '' @ nm @ '' }''
                    | _ \<Rightarrow> ''{}'')
      | _ \<Rightarrow> ''{}'')"

definition example_platform :: platform where
  "example_platform =
     \<lparr>JSON_parse = example_parse,
      JSON_stringify = example_stringify,
      Number_toString = (\<lambda>q. show_nat (nat \<lfloor>q\<rfloor>)),
      StringToNumber_gt0 = (\<lambda>s. False),
      Error_toString = (\<lambda>e. ''Error''),
      GITHUB_HEAD_REF = None,
      Date_now = (\<lambda>n. ''2020-01-01T00:00:00.000Z'')\<rparr>"

definition accepting_client :: client where
  "accepting_client = \<lparr>checks_create = (\<lambda>r. Inr 7), checks_update = (\<lambda>log r. None)\<rparr>"

definition example_options :: CheckOptions where
  "example_options =
     \<lparr>token = ''secret'', name = ''rust-code-analysis-cli'', owner = ''Luni-4'',
      repo = ''rust-code-analysis-check'', head_sha = ''0a1b2c'', started_at = ''2020-01-01T00:00:00.000Z'',
      rca_version = ''0.0.18''\<rparr>"

definition notice :: "string \<Rightarrow> annotation" where
  "notice nm = \<lparr>path = Some (JStr nm), start_line = Some (JNum 1), end_line = Some (JNum 2),
               annotation_level = ''notice'', title = Some (JStr nm), message = ''Hello''\<rparr>"

definition pending :: "annotation list \<Rightarrow> world" where
  "pending anns = new_CheckRunner\<lparr>annotations := anns\<rparr>"


definition refusing_client :: client where
  "refusing_client =
     \<lparr>checks_create = (\<lambda>r. Inl (RequestError ''Resource not accessible by integration'')),
      checks_update = (\<lambda>sent r. None)\<rparr>"

definition failing_client :: client where
  "failing_client =
     \<lparr>checks_create = (\<lambda>r. Inr 7),
      checks_update = (\<lambda>sent r. if conclusion r = Some ''cancelled'' then None
                                  else Some (RequestError ''Server Error''))\<rparr>"



definition example_input :: Input where
  "example_input = \<lparr>input_token = ''secret'', input_directory = ''src'', input_name = ''rust-code-analysis-cli''\<rparr>"

definition example_context :: github_context where
  "example_context =
     \<lparr>context_sha = ''0a1b2c'', pull_request_head_sha = None,
      repo_owner = ''Luni-4'', repo_repo = ''rust-code-analysis-check''\<rparr>"

text \<open>
  An example of a process library: it calls the listener on every line of the output,
  in order, goes on with the next line when the listener raises, and resolves with the
  exit code.
\<close>

fun line_by_line :: "string list \<Rightarrow> listener \<Rightarrow> world \<Rightarrow> world option" where
  "line_by_line [] on_line w = Some w"
| "line_by_line (line # rest) on_line w =
     (case on_line line w of
        None \<Rightarrow> None
      | Some (r, w1) \<Rightarrow> line_by_line rest on_line w1)"

definition tool :: "string \<Rightarrow> string list \<Rightarrow> int \<Rightarrow> rca_process" where
  "tool version stdlines code =
     \<lparr>rcaVersion = version,
      call = (\<lambda>on_line w. map_option (Pair (Inr code)) (line_by_line stdlines on_line w))\<rparr>"

definition failed_tool :: rca_process where
  "failed_tool = tool ''0.0.18'' [''warning: unused variable'', line_b, line_a] 2"

definition silent_failed_tool :: rca_process where
  "silent_failed_tool = tool ''0.0.18'' [] 3"

section \<open>Buckets\<close>

lemma pages_Nil: "pages [] = []"
  by (simp add: pages.simps)

lemma pages_nonempty: "xs \<noteq> [] \<Longrightarrow> pages xs = take 50 xs # pages (drop 50 xs)"
  by (subst pages.simps) simp

lemma concat_pages: "concat (pages xs) = xs"
  by (induction xs rule: pages.induct) (subst pages.simps, simp)

lemma length_pages: "length (pages xs) = (length xs + 49) div 50"
proof (induction xs rule: pages.induct)
  case (1 xs)
  show ?case
  proof (cases "xs = []")
    case True
    then show ?thesis by (simp add: pages_Nil)
  next
    case False
    with 1 have "length (pages xs) = Suc ((length xs - 50 + 49) div 50)"
      by (simp add: pages_nonempty)
    also have "\<dots> = (length xs + 49) div 50"
      using False by (cases "length xs < 50") (auto simp: Suc_leI le_div_geq div_eq_0_iff)
    finally show ?thesis .
  qed
qed

lemma pages_bounded: "list_all (\<lambda>p. p \<noteq> [] \<and> length p \<le> 50) (pages xs)"
  by (induction xs rule: pages.induct) (subst pages.simps, simp)

lemma getBucket_loop_eq:
  "length bucket \<le> 50 \<Longrightarrow>
   getBucket_loop bucket anns =
     (bucket @ take (50 - length bucket) (rev anns), rev (drop (50 - length bucket) (rev anns)))"
proof (induction bucket anns rule: getBucket_loop.induct)
  case (1 bucket anns)
  show ?case
  proof (cases "length bucket < 50 \<and> anns \<noteq> []")
    case True
    then obtain ys y where anns: "anns = ys @ [y]"
      by (cases anns rule: rev_cases) auto
    from True have step: "50 - length bucket = Suc (49 - length bucket)" by arith
    from True "1.IH" have "getBucket_loop (bucket @ [last anns]) (butlast anns) =
        ((bucket @ [last anns]) @ take (50 - length (bucket @ [last anns])) (rev (butlast anns)),
         rev (drop (50 - length (bucket @ [last anns])) (rev (butlast anns))))"
      by simp
    with True anns step show ?thesis
      by (subst getBucket_loop.simps) simp
  next
    case False
    with "1.prems" show ?thesis
      by (subst getBucket_loop.simps) auto
  qed
qed

lemma getBucket_eq:
  "getBucket pf w =
     (take 50 (rev (annotations w)),
      emit (Debug (''Prepared next annotations bucket, ''
                   @ Number_toString pf (of_nat (length (take 50 (rev (annotations w))))) @ '' size''))
           (w\<lparr>annotations := rev (drop 50 (rev (annotations w)))\<rparr>))"
  by (simp add: getBucket_def getBucket_loop_eq)

section \<open>The update calls of a cycle\<close>

lemma updates_of_append: "updates_of (xs @ ys) = updates_of xs @ updates_of ys"
  by (induction xs rule: updates_of.induct) auto



lemma updates_of_emit:
  "updates_of (trace (emit ev w)) = updates_of (trace w) @ updates_of [ev]"
  by (simp add: emit_def updates_of_append)

lemma annotations_emit: "annotations (emit ev w) = annotations w"
  by (simp add: emit_def)

lemma not_last_debug_frame:
  "annotations (not_last_debug w) = annotations w"
  "updates_of (trace (not_last_debug w)) = updates_of (trace w)"
  by (simp_all add: not_last_debug_def updates_of_emit annotations_emit)

lemma send_update_Inr:
  "send_update cl req w = (Inr u, w1) \<Longrightarrow>
     w1 = emit (Update req) w \<and> checks_update cl (updates_of (trace w)) req = None"
  by (auto simp: send_update_def split: option.splits)

lemma send_update_Inl:
  "send_update cl req w = (Inl e, w1) \<Longrightarrow>
     w1 = emit (Update req) w \<and> checks_update cl (updates_of (trace w)) req = Some e"
  by (auto simp: send_update_def split: option.splits)

lemma bucket_req_fields:
  "o_annotations (output_of (bucket_req pf cid opts b w)) = Some b"
  "status (bucket_req pf cid opts b w) = (if annotations w = [] then ''completed'' else ''in_progress'')"
  "conclusion (bucket_req pf cid opts b w) = (if annotations w = [] then Some ''success'' else None)"
  by (simp_all add: bucket_req_def Let_def)

lemma getBucket_frame:
  assumes "getBucket pf w = (b, w')"
  shows "b = take 50 (rev (annotations w))"
    and "annotations w' = rev (drop 50 (rev (annotations w)))"
    and "updates_of (trace w') = updates_of (trace w)"
  using assms by (auto simp: getBucket_eq updates_of_emit annotations_emit)

lemma allMetricsCheck_loop_ok:
  "allMetricsCheck_loop pf cl cid opts b w = (Inr (), w') \<Longrightarrow>
   \<exists>us. updates_of (trace w') = updates_of (trace w) @ us \<and>
     map (\<lambda>u. o_annotations (output_of u)) us
       = map Some (if b = [] then [] else b # pages (rev (annotations w))) \<and>
     map status us
       = (if b = [] then [] else replicate (length (pages (rev (annotations w)))) ''in_progress'' @ [''completed'']) \<and>
     map conclusion us
       = (if b = [] then [] else replicate (length (pages (rev (annotations w)))) None @ [Some ''success''])"
proof (induction pf cl cid opts b w rule: allMetricsCheck_loop.induct)
  case (1 pf cl cid opts b w)
  show ?case
  proof (cases "b = []")
    case True
    with "1.prems" show ?thesis
      by (simp add: allMetricsCheck_loop.simps)
  next
    case False
    let ?req = "bucket_req pf cid opts b w"
    obtain r w1 where sent: "send_update cl ?req (not_last_debug w) = (r, w1)"
      by (cases "send_update cl ?req (not_last_debug w)") auto
    obtain b' w2 where nxt: "getBucket pf w1 = (b', w2)"
      by (cases "getBucket pf w1") auto
    from False "1.prems" sent nxt have ok: "r = Inr ()"
      and rec: "allMetricsCheck_loop pf cl cid opts b' w2 = (Inr (), w')"
      by (auto simp: allMetricsCheck_loop.simps [of pf cl cid opts b w] split: sum.splits)
    from sent ok have w1: "w1 = emit (Update ?req) (not_last_debug w)"
      by (auto dest: send_update_Inr)
    have upd1: "updates_of (trace w1) = updates_of (trace w) @ [?req]"
      by (simp add: w1 updates_of_emit not_last_debug_frame)
    have ann1: "annotations w1 = annotations w"
      by (simp add: w1 annotations_emit not_last_debug_frame)
    from getBucket_frame [OF nxt] ann1 upd1
    have b': "b' = take 50 (rev (annotations w))"
      and ann2: "annotations w2 = rev (drop 50 (rev (annotations w)))"
      and upd2: "updates_of (trace w2) = updates_of (trace w) @ [?req]"
      by simp_all
    from False have "0 < length b" by simp
    from "1.IH" [OF this sent [symmetric] ok nxt [symmetric] rec]
    obtain us where us: "updates_of (trace w') = updates_of (trace w2) @ us"
      and a: "map (\<lambda>u. o_annotations (output_of u)) us
                = map Some (if b' = [] then [] else b' # pages (rev (annotations w2)))"
      and s: "map status us
                = (if b' = [] then [] else replicate (length (pages (rev (annotations w2)))) ''in_progress'' @ [''completed''])"
      and c: "map conclusion us
                = (if b' = [] then [] else replicate (length (pages (rev (annotations w2)))) None @ [Some ''success''])"
      by blast
    have pg: "pages (rev (annotations w)) = (if b' = [] then [] else b' # pages (rev (annotations w2)))"
    proof (cases "annotations w = []")
      case True
      then show ?thesis by (simp add: b' pages_Nil)
    next
      case False
      then show ?thesis by (simp add: b' ann2 pages_nonempty)
    qed
    have empty_iff: "(b' = []) = (annotations w = [])"
      by (simp add: b')
    show ?thesis
    proof (intro exI [of _ "?req # us"] conjI)
      show "updates_of (trace w') = updates_of (trace w) @ ?req # us"
        by (simp add: us upd2)
      show "map (\<lambda>u. o_annotations (output_of u)) (?req # us)
              = map Some (if b = [] then [] else b # pages (rev (annotations w)))"
        using False a by (simp add: pg bucket_req_fields)
      show "map status (?req # us)
              = (if b = [] then [] else replicate (length (pages (rev (annotations w)))) ''in_progress'' @ [''completed''])"
        using False s empty_iff by (simp add: pg bucket_req_fields)
      show "map conclusion (?req # us)
              = (if b = [] then [] else replicate (length (pages (rev (annotations w)))) None @ [Some ''success''])"
        using False c empty_iff by (simp add: pg bucket_req_fields)
    qed
  qed
qed

lemma carried_of_Some:
  "map (\<lambda>u. o_annotations (output_of u)) us = map Some ps \<Longrightarrow> map carried us = ps"
  by (induction us arbitrary: ps) (auto simp: carried_def)

lemma allMetricsCheck_ok:
  assumes "allMetricsCheck pf cl cid opts w = (Inr (), w')" and "annotations w \<noteq> []"
  shows "\<exists>us. updates_of (trace w') = updates_of (trace w) @ us \<and>
     map (\<lambda>u. o_annotations (output_of u)) us = map Some (pages (rev (annotations w))) \<and>
     map status us = replicate (length (pages (rev (annotations w))) - 1) ''in_progress'' @ [''completed''] \<and>
     map conclusion us = replicate (length (pages (rev (annotations w))) - 1) None @ [Some ''success'']"
proof -
  obtain b w1 where nxt: "getBucket pf w = (b, w1)"
    by (cases "getBucket pf w") auto
  from getBucket_frame [OF nxt]
  have b: "b = take 50 (rev (annotations w))"
    and ann1: "annotations w1 = rev (drop 50 (rev (annotations w)))"
    and upd1: "updates_of (trace w1) = updates_of (trace w)"
    by simp_all
  from assms(2) have ne: "b \<noteq> []" by (simp add: b)
  from assms(2) have pg: "pages (rev (annotations w)) = b # pages (rev (annotations w1))"
    by (simp add: b ann1 pages_nonempty)
  from assms(1) nxt have "allMetricsCheck_loop pf cl cid opts b w1 = (Inr (), w')"
    by (simp add: allMetricsCheck_def)
  from allMetricsCheck_loop_ok [OF this] ne show ?thesis
    by (simp add: upd1 pg)
qed

lemma globalMetricsCheck_ok:
  assumes "globalMetricsCheck pf cl cid opts w = (Inr (), w')"
  shows "\<exists>u. updates_of (trace w') = updates_of (trace w) @ [u] \<and>
     status u = ''completed'' \<and> conclusion u = Some ''success'' \<and> o_annotations (output_of u) = None"
  using assms
  by (auto simp: globalMetricsCheck_def Let_def updates_of_emit dest!: send_update_Inr)

lemma completed_path_ok:
  assumes "completed_path pf cl cid opts w = (Inr (), w')"
  shows "\<exists>us. updates_of (trace w') = updates_of (trace w) @ us \<and>
     map carried us = (if annotations w = [] then [[]] else pages (rev (annotations w))) \<and>
     map status us = replicate (length us - 1) ''in_progress'' @ [''completed''] \<and>
     map conclusion us = replicate (length us - 1) None @ [Some ''success'']"
proof (cases "annotations w = []")
  case True
  with assms have "globalMetricsCheck pf cl cid opts w = (Inr (), w')"
    by (simp add: completed_path_def)
  from globalMetricsCheck_ok [OF this] True show ?thesis
    by (auto simp: carried_def)
next
  case False
  with assms have "allMetricsCheck pf cl cid opts w = (Inr (), w')"
    by (simp add: completed_path_def)
  from allMetricsCheck_ok [OF this False]
  obtain us where us: "updates_of (trace w') = updates_of (trace w) @ us"
    and a: "map (\<lambda>u. o_annotations (output_of u)) us = map Some (pages (rev (annotations w)))"
    and s: "map status us = replicate (length (pages (rev (annotations w))) - 1) ''in_progress'' @ [''completed'']"
    and c: "map conclusion us = replicate (length (pages (rev (annotations w))) - 1) None @ [Some ''success'']"
    by blast
  from a have len: "length us = length (pages (rev (annotations w)))"
    by (metis length_map)
  from a have "map carried us = pages (rev (annotations w))"
    by (rule carried_of_Some)
  with us s c len False show ?thesis by auto
qed

lemma createCheck_frame:
  "updates_of (trace (snd (createCheck cl opts w))) = updates_of (trace w)"
  "annotations (snd (createCheck cl opts w)) = annotations w"
  "file_jsons (snd (createCheck cl opts w)) = file_jsons w"
  by (simp_all add: createCheck_def updates_of_emit annotations_emit) (simp add: emit_def)

lemma executeCheck_created:
  assumes "fst (createCheck cl opts w) = Inr cid"
  shows "executeCheck pf cl opts w =
     (case completed_path pf cl cid opts (snd (createCheck cl opts w)) of
        (Inr u, w2) \<Rightarrow> (Inr (), w2)
      | (Inl e, w2) \<Rightarrow>
          (case cancelCheck pf cl cid opts w2 of
             (Inl e', w3) \<Rightarrow> (Inl e', w3)
           | (Inr u, w3) \<Rightarrow> (Inl e, w3)))"
  using assms by (cases "createCheck cl opts w") (simp add: executeCheck_def)

lemma executeCheck_ok:
  assumes created: "fst (createCheck cl opts w) = Inr cid"
    and ok: "executeCheck pf cl opts w = (Inr (), w')"
  shows "map carried (sent_since w w') = (if annotations w = [] then [[]] else pages (rev (annotations w)))"
    and "map status (sent_since w w') = replicate (length (sent_since w w') - 1) ''in_progress'' @ [''completed'']"
    and "map conclusion (sent_since w w') = replicate (length (sent_since w w') - 1) None @ [Some ''success'']"
proof -
  let ?w1 = "snd (createCheck cl opts w)"
  from ok have "completed_path pf cl cid opts ?w1 = (Inr (), w')"
    by (auto simp: executeCheck_created [OF created] split: prod.splits sum.splits)
  from completed_path_ok [OF this]
  obtain us where us: "updates_of (trace w') = updates_of (trace w) @ us"
    and rest: "map carried us = (if annotations w = [] then [[]] else pages (rev (annotations w)))"
      "map status us = replicate (length us - 1) ''in_progress'' @ [''completed'']"
      "map conclusion us = replicate (length us - 1) None @ [Some ''success'']"
    by (auto simp: createCheck_frame)
  from us have "sent_since w w' = us" by (simp add: sent_since_def)
  with rest show
    "map carried (sent_since w w') = (if annotations w = [] then [[]] else pages (rev (annotations w)))"
    "map status (sent_since w w') = replicate (length (sent_since w w') - 1) ''in_progress'' @ [''completed'']"
    "map conclusion (sent_since w w') = replicate (length (sent_since w w') - 1) None @ [Some ''success'']"
    by simp_all
qed

lemma statuses_split:
  assumes "map f us = replicate (length us - 1) a @ [b]"
  shows "list_all (\<lambda>u. f u = a) (butlast us) \<and> f (last us) = b"
proof -
  from assms have ne: "us \<noteq> []" by auto
  then have "f (last us) = last (map f us)" by (simp add: last_map)
  also have "\<dots> = b" by (simp add: assms)
  finally have l: "f (last us) = b" .
  have "map f (butlast us) = butlast (map f us)" by (simp add: map_butlast)
  also have "\<dots> = replicate (length us - 1) a" by (simp add: assms)
  finally have "map f (butlast us) = replicate (length us - 1) a" .
  then have "\<forall>x \<in> set (map f (butlast us)). x = a" by simp
  then have "list_all (\<lambda>u. f u = a) (butlast us)" by (simp add: list_all_iff)
  with l show ?thesis by simp
qed

lemma accepted_append:
  "accepted cl sent (xs @ ys) = (accepted cl sent xs \<and> accepted cl (sent @ xs) ys)"
  by (induction xs arbitrary: sent) auto

lemma accepted_always:
  "(\<forall>sent r. checks_update cl sent r = None) \<Longrightarrow> accepted cl sent us"
  by (induction us arbitrary: sent) auto

lemma allMetricsCheck_loop_rejected:
  "allMetricsCheck_loop pf cl cid opts b w = (Inl e, w') \<Longrightarrow>
   \<exists>us u. updates_of (trace w') = updates_of (trace w) @ us @ [u] \<and>
          checks_update cl (updates_of (trace w) @ us) u = Some e"
proof (induction pf cl cid opts b w rule: allMetricsCheck_loop.induct)
  case (1 pf cl cid opts b w)
  show ?case
  proof (cases "b = []")
    case True
    with "1.prems" show ?thesis
      by (simp add: allMetricsCheck_loop.simps)
  next
    case False
    let ?req = "bucket_req pf cid opts b w"
    obtain r w1 where sent: "send_update cl ?req (not_last_debug w) = (r, w1)"
      by (cases "send_update cl ?req (not_last_debug w)") auto
    show ?thesis
    proof (cases r)
      case (Inl e')
      with False "1.prems" sent have "e' = e" "w' = w1"
        by (simp_all add: allMetricsCheck_loop.simps [of pf cl cid opts b w])
      with sent Inl have "w' = emit (Update ?req) (not_last_debug w)"
        and "checks_update cl (updates_of (trace (not_last_debug w))) ?req = Some e"
        by (auto dest: send_update_Inl)
      then have "updates_of (trace w') = updates_of (trace w) @ [] @ [?req]"
        and "checks_update cl (updates_of (trace w) @ []) ?req = Some e"
        by (simp_all add: updates_of_emit not_last_debug_frame)
      then show ?thesis by blast
    next
      case (Inr u0)
      obtain b' w2 where nxt: "getBucket pf w1 = (b', w2)"
        by (cases "getBucket pf w1") auto
      from False "1.prems" sent nxt Inr
      have rec: "allMetricsCheck_loop pf cl cid opts b' w2 = (Inl e, w')"
        by (simp add: allMetricsCheck_loop.simps [of pf cl cid opts b w])
      from sent Inr have w1: "w1 = emit (Update ?req) (not_last_debug w)"
        by (auto dest: send_update_Inr)
      have upd2: "updates_of (trace w2) = updates_of (trace w) @ [?req]"
        using getBucket_frame(3) [OF nxt] by (simp add: w1 updates_of_emit not_last_debug_frame)
      from False have "0 < length b" by simp
      from "1.IH" [OF this sent [symmetric] Inr nxt [symmetric] rec]
      obtain us u where "updates_of (trace w') = updates_of (trace w2) @ us @ [u]"
        and "checks_update cl (updates_of (trace w2) @ us) u = Some e"
        by blast
      then have "updates_of (trace w') = updates_of (trace w) @ (?req # us) @ [u]"
        and "checks_update cl (updates_of (trace w) @ (?req # us)) u = Some e"
        by (simp_all add: upd2)
      then show ?thesis by blast
    qed
  qed
qed

lemma completed_path_rejected:
  assumes "completed_path pf cl cid opts w = (Inl e, w')"
  shows "\<exists>us u. updates_of (trace w') = updates_of (trace w) @ us @ [u] \<and>
          checks_update cl (updates_of (trace w) @ us) u = Some e"
proof (cases "annotations w = []")
  case True
  with assms have g: "globalMetricsCheck pf cl cid opts w = (Inl e, w')"
    by (simp add: completed_path_def)
  then obtain req where "w' = emit (Update req) w" "checks_update cl (updates_of (trace w)) req = Some e"
    by (auto simp: globalMetricsCheck_def dest: send_update_Inl)
  then have "updates_of (trace w') = updates_of (trace w) @ [] @ [req]"
    and "checks_update cl (updates_of (trace w) @ []) req = Some e"
    by (simp_all add: updates_of_emit)
  then show ?thesis by blast
next
  case False
  obtain b w1 where nxt: "getBucket pf w = (b, w1)"
    by (cases "getBucket pf w") auto
  with False assms have "allMetricsCheck_loop pf cl cid opts b w1 = (Inl e, w')"
    by (simp add: completed_path_def allMetricsCheck_def)
  from allMetricsCheck_loop_rejected [OF this] getBucket_frame(3) [OF nxt]
  show ?thesis by simp
qed

lemma executeCheck_accepted:
  assumes created: "fst (createCheck cl opts w) = Inr cid"
    and acc: "accepted cl (updates_of (trace w)) (sent_since w (snd (executeCheck pf cl opts w)))"
  shows "fst (executeCheck pf cl opts w) = Inr ()"
proof -
  let ?w1 = "snd (createCheck cl opts w)"
  obtain r w2 where cp: "completed_path pf cl cid opts ?w1 = (r, w2)"
    by (cases "completed_path pf cl cid opts ?w1") auto
  show ?thesis
  proof (cases r)
    case (Inr u)
    with cp show ?thesis by (simp add: executeCheck_created [OF created])
  next
    case (Inl e)
    with cp completed_path_rejected [of pf cl cid opts ?w1 e w2]
    obtain us u where sent: "updates_of (trace w2) = updates_of (trace w) @ us @ [u]"
      and rej: "checks_update cl (updates_of (trace w) @ us) u = Some e"
      by (auto simp: createCheck_frame)
    have "updates_of (trace (snd (cancelCheck pf cl cid opts w2)))
        = updates_of (trace w2) @ [cancel_request pf cid opts w2]"
      by (simp add: cancelCheck_def send_update_def updates_of_emit split: option.splits)
    with cp Inl have "updates_of (trace (snd (executeCheck pf cl opts w)))
        = updates_of (trace w2) @ [cancel_request pf cid opts w2]"
      by (auto simp: executeCheck_created [OF created] split: prod.splits sum.splits)
    with sent have "sent_since w (snd (executeCheck pf cl opts w)) = us @ [u] @ [cancel_request pf cid opts w2]"
      by (simp add: sent_since_def)
    with acc rej show ?thesis
      by (simp add: accepted_append)
  qed
qed

lemma allMetricsCheck_loop_accepting:
  "(\<forall>sent r. checks_update cl sent r = None) \<Longrightarrow>
     fst (allMetricsCheck_loop pf cl cid opts b w) = Inr ()"
proof (induction pf cl cid opts b w rule: allMetricsCheck_loop.induct)
  case (1 pf cl cid opts b w)
  show ?case
  proof (cases "0 < length b")
    case False
    then show ?thesis by (simp add: allMetricsCheck_loop.simps)
  next
    case True
    let ?req = "bucket_req pf cid opts b w"
    have sent: "send_update cl ?req (not_last_debug w) = (Inr (), emit (Update ?req) (not_last_debug w))"
      by (simp add: send_update_def "1.prems")
    obtain b' w2 where nxt: "getBucket pf (emit (Update ?req) (not_last_debug w)) = (b', w2)"
      by (cases "getBucket pf (emit (Update ?req) (not_last_debug w))") auto
    from "1.IH" [OF True sent [symmetric] refl nxt [symmetric] "1.prems"]
    have "fst (allMetricsCheck_loop pf cl cid opts b' w2) = Inr ()" .
    with True sent nxt show ?thesis
      by (simp add: allMetricsCheck_loop.simps [of pf cl cid opts b w])
  qed
qed

lemma completed_path_accepting:
  assumes "\<forall>sent r. checks_update cl sent r = None"
  shows "fst (completed_path pf cl cid opts w) = Inr ()"
proof (cases "annotations w = []")
  case True
  then show ?thesis
    by (simp add: completed_path_def globalMetricsCheck_def send_update_def assms)
next
  case False
  then show ?thesis
    using allMetricsCheck_loop_accepting [OF assms]
    by (simp add: completed_path_def allMetricsCheck_def split: prod.splits)
qed

lemma executeCheck_accepting:
  assumes "\<forall>sent r. checks_update cl sent r = None"
    and "fst (createCheck cl opts w) = Inr cid"
  shows "fst (executeCheck pf cl opts w) = Inr ()"
proof -
  obtain r w2 where cp: "completed_path pf cl cid opts (snd (createCheck cl opts w)) = (r, w2)"
    by (cases "completed_path pf cl cid opts (snd (createCheck cl opts w))") auto
  with completed_path_accepting [OF assms(1), of pf cid opts "snd (createCheck cl opts w)"]
  have "r = Inr ()" by simp
  with cp show ?thesis
    by (simp add: executeCheck_created [OF assms(2)])
qed

subsection \<open>Number and status of the update calls\<close>

text \<open>
  Claim C1. In a cycle whose create call succeeds and whose update calls are all
  accepted by the client, the cycle returns without an error and the update calls it
  sent are: exactly one when no annotation is pending; otherwise exactly
  \<open>\<lceil>L / 50\<rceil>\<close> for \<open>L\<close> pending annotations, each carrying at most 50
  annotations, \<open>L\<close> in total. Every call but the last is in progress; the last is
  completed with conclusion success.
\<close>

theorem reporting_cycle_updates:
  assumes "fst (createCheck cl options w) = Inr checkRunId"
    and "accepted cl (updates_of (trace w)) (sent_since w (snd (executeCheck pf cl options w)))"
  shows "let us = sent_since w (snd (executeCheck pf cl options w)) in
     fst (executeCheck pf cl options w) = Inr () \<and>
     length us = (if annotations w = [] then 1 else (length (annotations w) + 49) div 50) \<and>
     list_all (\<lambda>u. length (carried u) \<le> 50) us \<and>
     sum_list (map (\<lambda>u. length (carried u)) us) = length (annotations w) \<and>
     list_all (\<lambda>u. status u = ''in_progress'') (butlast us) \<and>
     status (last us) = ''completed'' \<and> conclusion (last us) = Some ''success''"
proof -
  define us where "us = sent_since w (snd (executeCheck pf cl options w))"
  have returned: "fst (executeCheck pf cl options w) = Inr ()"
    using assms by (rule executeCheck_accepted)
  then have ok: "executeCheck pf cl options w = (Inr (), snd (executeCheck pf cl options w))"
    by (metis prod.collapse)
  note facts = executeCheck_ok [OF assms(1) ok, folded us_def]
  have len: "length us = (if annotations w = [] then 1 else (length (annotations w) + 49) div 50)"
    using arg_cong [OF facts(1), of length] by (simp add: length_pages)
  have "list_all (\<lambda>p. length p \<le> 50) (map carried us)"
    using pages_bounded [of "rev (annotations w)"]
    by (auto simp: facts(1) list_all_iff)
  then have bound: "list_all (\<lambda>u. length (carried u) \<le> 50) us"
    by (simp add: list_all_iff)
  have "sum_list (map length (map carried us)) = length (concat (map carried us))"
    by (simp add: length_concat)
  also have "\<dots> = length (annotations w)"
    by (simp add: facts(1) concat_pages)
  finally have total: "sum_list (map (\<lambda>u. length (carried u)) us) = length (annotations w)"
    by (simp add: comp_def)
  from statuses_split [OF facts(2)] statuses_split [OF facts(3)] len bound total returned
  show ?thesis by (simp add: us_def [symmetric] Let_def)
qed

theorem reporting_cycle_updates_witness:
  "fst (createCheck accepting_client example_options (pending (replicate 120 (notice ''f'')))) = Inr 7 \<and>
   accepted accepting_client (updates_of (trace (pending (replicate 120 (notice ''f'')))))
     (sent_since (pending (replicate 120 (notice ''f'')))
        (snd (executeCheck example_platform accepting_client example_options (pending (replicate 120 (notice ''f'')))))) \<and>
   (let us = sent_since (pending (replicate 120 (notice ''f'')))
               (snd (executeCheck example_platform accepting_client example_options (pending (replicate 120 (notice ''f'')))))
    in length us = 3 \<and>
       list_all (\<lambda>u. length (carried u) \<le> 50) us \<and>
       sum_list (map (\<lambda>u. length (carried u)) us) = 120 \<and>
       list_all (\<lambda>u. status u = ''in_progress'') (butlast us) \<and>
       status (last us) = ''completed'' \<and> conclusion (last us) = Some ''success'')"
proof -
  have created: "fst (createCheck accepting_client example_options (pending (replicate 120 (notice ''f'')))) = Inr 7"
    by (simp add: createCheck_def accepting_client_def)
  have acc: "accepted accepting_client sent us" for sent us
    by (rule accepted_always) (simp add: accepting_client_def)
  have "annotations (pending (replicate 120 (notice ''f''))) = replicate 120 (notice ''f'')"
    by (simp add: pending_def)
  with reporting_cycle_updates [OF created acc] created acc show ?thesis
    by (simp add: Let_def)
qed

subsection \<open>Order of the batches\<close>

text \<open>
  Claim C2, as amended. The buckets are taken from the end of the pending list: in a
  cycle whose create call succeeds and whose update calls are all accepted, the batches,
  concatenated in the order they are sent, are the pending annotations in the reverse
  of the order of extraction, and the first batch is the first 50 of the reversed list.
\<close>

theorem batches_reverse_order:
  assumes "fst (createCheck cl options w) = Inr checkRunId"
    and "accepted cl (updates_of (trace w)) (sent_since w (snd (executeCheck pf cl options w)))"
  shows "let us = sent_since w (snd (executeCheck pf cl options w)) in
     concat (map carried us) = rev (annotations w) \<and>
     carried (hd us) = take 50 (rev (annotations w))"
proof -
  define us where "us = sent_since w (snd (executeCheck pf cl options w))"
  have "fst (executeCheck pf cl options w) = Inr ()"
    using assms by (rule executeCheck_accepted)
  then have ok: "executeCheck pf cl options w = (Inr (), snd (executeCheck pf cl options w))"
    by (metis prod.collapse)
  note facts = executeCheck_ok [OF assms(1) ok, folded us_def]
  have c: "concat (map carried us) = rev (annotations w)"
    by (simp add: facts(1) concat_pages)
  have "us \<noteq> []" using facts(1) by (auto split: if_splits simp: pages_nonempty)
  then have "carried (hd us) = hd (map carried us)" by (simp add: hd_map)
  also have "\<dots> = take 50 (rev (annotations w))"
    by (simp add: facts(1) pages_nonempty)
  finally show ?thesis using c by (simp add: us_def [symmetric] Let_def)
qed

theorem batches_reverse_order_witness:
  "fst (createCheck accepting_client example_options (pending [notice ''f'', notice ''g''])) = Inr 7 \<and>
   accepted accepting_client (updates_of (trace (pending [notice ''f'', notice ''g''])))
     (sent_since (pending [notice ''f'', notice ''g''])
        (snd (executeCheck example_platform accepting_client example_options (pending [notice ''f'', notice ''g''])))) \<and>
   (let us = sent_since (pending [notice ''f'', notice ''g''])
               (snd (executeCheck example_platform accepting_client example_options (pending [notice ''f'', notice ''g''])))
    in concat (map carried us) = [notice ''g'', notice ''f''] \<and>
       carried (hd us) = [notice ''g'', notice ''f''])"
proof -
  have created: "fst (createCheck accepting_client example_options (pending [notice ''f'', notice ''g''])) = Inr 7"
    by (simp add: createCheck_def accepting_client_def)
  have acc: "accepted accepting_client sent us" for sent us
    by (rule accepted_always) (simp add: accepting_client_def)
  have "annotations (pending [notice ''f'', notice ''g'']) = [notice ''f'', notice ''g'']"
    by (simp add: pending_def)
  with batches_reverse_order [OF created acc] created acc show ?thesis
    by (simp add: Let_def)
qed

text \<open>
  The claim as stated fails on two pending annotations: the one extracted last is sent
  first.
\<close>

theorem batches_in_extraction_order_counterexample:
  "annotations (pending [notice ''f'', notice ''g'']) = [notice ''f'', notice ''g''] \<and>
   map carried (sent_since (pending [notice ''f'', notice ''g''])
      (snd (executeCheck example_platform accepting_client example_options (pending [notice ''f'', notice ''g'']))))
     = [[notice ''g'', notice ''f'']] \<and>
   [notice ''g'', notice ''f''] \<noteq> [notice ''f'', notice ''g'']"
proof -
  have created: "fst (createCheck accepting_client example_options (pending [notice ''f'', notice ''g''])) = Inr 7"
    by (simp add: createCheck_def accepting_client_def)
  have "fst (executeCheck example_platform accepting_client example_options (pending [notice ''f'', notice ''g''])) = Inr ()"
    by (rule executeCheck_accepting [OF _ created]) (simp add: accepting_client_def)
  then have ok: "executeCheck example_platform accepting_client example_options (pending [notice ''f'', notice ''g''])
      = (Inr (), snd (executeCheck example_platform accepting_client example_options (pending [notice ''f'', notice ''g''])))"
    by (metis prod.collapse)
  have anns: "annotations (pending [notice ''f'', notice ''g'']) = [notice ''f'', notice ''g'']"
    by (simp add: pending_def)
  have "pages [notice ''g'', notice ''f''] = [[notice ''g'', notice ''f'']]"
    by (simp add: pages_nonempty pages_Nil)
  with executeCheck_ok(1) [OF created ok] anns show ?thesis
    by (simp add: notice_def)
qed

section \<open>Failed creation and cancellation\<close>

text \<open>
  The stored records: one per line that is JSON, in the order of the lines, whatever
  else the line did.
\<close>

lemma parseJson_file_jsons:
  assumes "parseJson pf w line = Some (r, w')"
  shows "file_jsons w' = file_jsons w @
           (case JSON_parse pf line of None \<Rightarrow> [] | Some contents \<Rightarrow> [Object_assign pf contents])"
  using assms
  by (auto simp: parseJson_def emit_def Let_def split: option.splits sum.splits if_splits prod.splits)

lemma line_by_line_file_jsons:
  "line_by_line lines (stdline_listener pf) w = Some w' \<Longrightarrow>
     file_jsons w' = file_jsons w @ map (Object_assign pf) (List.map_filter (JSON_parse pf) lines)"
proof (induction lines arbitrary: w)
  case Nil
  then show ?case by (simp add: List.map_filter_simps)
next
  case (Cons line lines)
  from Cons.prems obtain r w1 where called: "stdline_listener pf line w = Some (r, w1)"
    and rest: "line_by_line lines (stdline_listener pf) w1 = Some w'"
    by (auto split: option.splits prod.splits)
  from called have first: "parseJson pf w line = Some (r, w1)"
    by (simp add: stdline_listener_def)
  from parseJson_file_jsons [OF first] Cons.IH [OF rest] show ?case
    by (simp add: List.map_filter_simps split: option.splits)
qed



text \<open>
  Claim C8. After a successful create, when the completed path raises an error and the
  cancellation call is accepted, exactly one more update call is sent: status
  completed, conclusion cancelled, a completion time, summary \<^verbatim>\<open>Unhandled error\<close> and
  the fixed cancellation text; the cycle then raises the error of the completed path.
\<close>

theorem cancel_after_error:
  assumes "fst (createCheck cl options w) = Inr checkRunId"
    and "fst (completed_path pf cl checkRunId options (snd (createCheck cl options w))) = Inl e"
    and "checks_update cl
           (updates_of (trace (snd (completed_path pf cl checkRunId options (snd (createCheck cl options w))))))
           (cancel_request pf checkRunId options (snd (completed_path pf cl checkRunId options (snd (createCheck cl options w)))))
         = None"
  shows "let w2 = snd (completed_path pf cl checkRunId options (snd (createCheck cl options w)));
             req = cancel_request pf checkRunId options w2
         in executeCheck pf cl options w = (Inl e, emit (Update req) w2) \<and>
            updates_of (trace (snd (executeCheck pf cl options w))) = updates_of (trace w2) @ [req] \<and>
            status req = ''completed'' \<and>
            conclusion req = Some ''cancelled'' \<and>
            completed_at req = Some (Date_now pf (length (trace w2))) \<and>
            o_summary (output_of req) = ''Unhandled error'' \<and>
            o_text (output_of req) = ''Check was cancelled due to unhandled error. Check the Action logs for details.''"
proof -
  define w2 where "w2 = snd (completed_path pf cl checkRunId options (snd (createCheck cl options w)))"
  define req where "req = cancel_request pf checkRunId options w2"
  from assms(2) have cp: "completed_path pf cl checkRunId options (snd (createCheck cl options w)) = (Inl e, w2)"
    unfolding w2_def by (metis prod.collapse)
  from assms(3) have "cancelCheck pf cl checkRunId options w2 = (Inr (), emit (Update req) w2)"
    by (simp add: cancelCheck_def send_update_def w2_def req_def)
  with cp have run: "executeCheck pf cl options w = (Inl e, emit (Update req) w2)"
    by (simp add: executeCheck_created [OF assms(1)])
  have fields: "status req = ''completed''" "conclusion req = Some ''cancelled''"
    "completed_at req = Some (Date_now pf (length (trace w2)))"
    "o_summary (output_of req) = ''Unhandled error''"
    "o_text (output_of req) = ''Check was cancelled due to unhandled error. Check the Action logs for details.''"
    by (simp_all add: req_def cancel_request_def)
  have "updates_of (trace (emit (Update req) w2)) = updates_of (trace w2) @ [req]"
    by (simp add: updates_of_emit)
  with run fields show ?thesis
    by (simp add: Let_def w2_def [symmetric] req_def [symmetric])
qed

theorem cancel_after_error_witness:
  "fst (createCheck failing_client example_options new_CheckRunner) = Inr 7 \<and>
   fst (completed_path example_platform failing_client 7 example_options
          (snd (createCheck failing_client example_options new_CheckRunner)))
     = Inl (RequestError ''Server Error'') \<and>
   fst (executeCheck example_platform failing_client example_options new_CheckRunner)
     = Inl (RequestError ''Server Error'') \<and>
   map conclusion (updates_of (trace (snd (executeCheck example_platform failing_client example_options new_CheckRunner))))
     = [Some ''success'', Some ''cancelled'']"
proof -
  have created: "fst (createCheck failing_client example_options new_CheckRunner) = Inr 7"
    by (simp add: createCheck_def failing_client_def)
  have raised: "fst (completed_path example_platform failing_client 7 example_options
          (snd (createCheck failing_client example_options new_CheckRunner)))
     = Inl (RequestError ''Server Error'')"
    by (simp add: completed_path_def createCheck_def emit_def new_CheckRunner_def
        globalMetricsCheck_def send_update_def failing_client_def)
  have accepted: "checks_update failing_client sent
      (cancel_request example_platform 7 example_options w2) = None" for sent w2
    by (simp add: failing_client_def cancel_request_def)
  have sent: "map conclusion (updates_of (trace (snd (completed_path example_platform failing_client 7 example_options
          (snd (createCheck failing_client example_options new_CheckRunner)))))) = [Some ''success'']"
    by (simp add: completed_path_def createCheck_def emit_def new_CheckRunner_def
        globalMetricsCheck_def send_update_def failing_client_def)
  from cancel_after_error [OF created raised accepted] created raised sent
  show ?thesis by (simp add: Let_def updates_of_emit)
qed

section \<open>Parsing a line\<close>

lemma lines_distinct:
  "line_a \<noteq> line_b" "line_a \<noteq> text_g" "line_a \<noteq> line_c"
  "line_b \<noteq> text_g" "line_b \<noteq> line_c" "text_g \<noteq> line_c"
  by (simp_all add: line_a_def line_b_def line_c_def text_g_def)

lemma lines_not_special:
  "''[object Object]'' \<noteq> line_a" "''[object Object]'' \<noteq> line_b" "''[object Object]'' \<noteq> text_g"
  "''[object Object]'' \<noteq> line_c"
  "''null'' \<noteq> line_a" "''null'' \<noteq> line_b" "''null'' \<noteq> text_g" "''null'' \<noteq> line_c"
  "''42'' \<noteq> line_a" "''42'' \<noteq> line_b" "''42'' \<noteq> text_g" "''42'' \<noteq> line_c"
  by (simp_all add: line_a_def line_b_def line_c_def text_g_def)

lemma example_parse_simps:
  "JSON_parse example_platform line_a = Some (enc_obj file_a)"
  "JSON_parse example_platform line_b = Some (enc_obj file_b)"
  "JSON_parse example_platform text_g = Some (enc_obj function_g)"
  "JSON_parse example_platform line_c = Some record_c"
  "JSON_parse example_platform ''null'' = Some JNull"
  "JSON_parse example_platform ''[object Object]'' = None"
  "JSON_parse example_platform ''42'' = Some (JNum 42)"
  using lines_distinct lines_distinct [symmetric] lines_not_special
  by (simp_all add: example_platform_def example_parse_def)

lemma getMetrics_enc: "\<exists>s. getMetrics pf (Some (enc_metrics m)) = Inr s"
  by (simp add: getMetrics_def enc_metrics_def ToString_def)

lemma get_enc_obj:
  "get (Some (enc_obj rca)) ''name'' = Inr (Some (JStr (f_name rca)))"
  "get (Some (enc_obj rca)) ''start_line'' = Inr (Some (JNum (f_start_line rca)))"
  "get (Some (enc_obj rca)) ''end_line'' = Inr (Some (JNum (f_end_line rca)))"
  "get (Some (enc_obj rca)) ''metrics'' = Inr (Some (enc_metrics (f_metrics rca)))"
  "get (Some (enc_obj rca)) ''spaces'' = Inr (Some (JArr (map enc_obj (f_spaces rca))))"
  by (cases rca, simp)+

lemma spaces_nonempty_enc_obj:
  "spaces_nonempty pf (Some (enc_obj rca)) = Inr (f_spaces rca \<noteq> [])"
  by (simp add: spaces_nonempty_def get_enc_obj)

lemma spaces_iter_enc_obj:
  "spaces_iter (Some (enc_obj rca)) = Inr (map enc_obj (f_spaces rca))"
  by (simp add: spaces_iter_def get_enc_obj)

lemma getFileMetrics_enc: "\<exists>s. getFileMetrics pf (Some (enc_obj rca)) = Inr s"
proof -
  obtain s where "getMetrics pf (Some (enc_metrics (f_metrics rca))) = Inr s"
    using getMetrics_enc by blast
  then show ?thesis
    by (simp add: getFileMetrics_def get_enc_obj)
qed

lemma json_str_enc_obj: "json_str pf (enc_obj rca) = ''[object Object]''"
  by (cases rca) simp

lemma Object_assign_enc_obj: "Object_assign pf (enc_obj rca) = enc_obj rca"
  by (cases rca) simp

lemma makeAnnotations_loop_Nil: "makeAnnotations_loop pf [] anns = Some (Inr (), anns)"
  by (subst makeAnnotations_loop.simps) simp

lemma makeAnnotations_loop_Cons:
  "makeAnnotations_loop pf (space # rest) anns =
     (case JSON_parse pf (json_str pf space) of
        None \<Rightarrow> Some (Inl SyntaxError, anns)
      | Some space_obj \<Rightarrow>
          (case addAnnotation (Some space_obj) anns of
             (Inl e, anns1) \<Rightarrow> Some (Inl e, anns1)
           | (Inr u, anns1) \<Rightarrow>
               (case spaces_nonempty pf (Some space_obj) of
                  Inl e \<Rightarrow> Some (Inl e, anns1)
                | Inr nonempty \<Rightarrow>
                    (if nonempty then
                       (case spaces_iter (Some space_obj) of
                          Inl e \<Rightarrow> Some (Inl e, anns1)
                        | Inr subspaces \<Rightarrow>
                            Option.bind (makeAnnotations_loop pf subspaces anns1)
                              (\<lambda>r. case r of
                                 (Inl e, anns2) \<Rightarrow> Some (Inl e, anns2)
                               | (Inr u, anns2) \<Rightarrow> makeAnnotations_loop pf rest anns2))
                     else makeAnnotations_loop pf rest anns1))))"
  by (subst makeAnnotations_loop.simps) (simp only: list.case)

text \<open>
  The first element of a list of nested objects is turned into the string
  \<^verbatim>\<open>[object Object]\<close> before it is parsed.
\<close>

lemma makeAnnotations_object_spaces:
  assumes "f_spaces rca \<noteq> []" and "JSON_parse pf ''[object Object]'' = None"
  shows "makeAnnotations pf (Some (enc_obj rca)) anns = Some (Inl SyntaxError, anns)"
proof -
  from assms(1) obtain c cs where "f_spaces rca = c # cs"
    by (cases "f_spaces rca") auto
  then show ?thesis
    by (simp add: makeAnnotations_def spaces_iter_enc_obj makeAnnotations_loop_Cons
        json_str_enc_obj assms(2))
qed

lemma parseJson_leaf:
  assumes "JSON_parse pf line = Some (enc_obj rca)" and "f_spaces rca = []"
  shows "\<exists>rendered. parseJson pf w line =
     Some (Inr (), w\<lparr>file_jsons := file_jsons w @ [enc_obj rca], file_metrics := file_metrics w @ [rendered]\<rparr>)"
proof -
  obtain s where s: "getFileMetrics pf (Some (enc_obj rca)) = Inr s"
    using getFileMetrics_enc by blast
  have "parseJson pf w line =
     Some (Inr (), w\<lparr>file_jsons := file_jsons w @ [enc_obj rca], file_metrics := file_metrics w @ [s]\<rparr>)"
    by (simp add: parseJson_def assms Object_assign_enc_obj s spaces_nonempty_enc_obj Let_def)
  then show ?thesis by blast
qed

subsection \<open>Lines that are not JSON\<close>

text \<open>
  Claim C5, as amended. A line that is not JSON (the parser raises on it) is discarded:
  \<^verbatim>\<open>parseJson\<close> returns without an error, logs one debug message, and leaves the
  rendered report texts, the stored records and the pending annotations as they were.
\<close>

theorem parseJson_discards_non_json:
  assumes "JSON_parse pf line = None"
  shows "parseJson pf w line = Some (Inr (), emit (Debug ''Not a JSON, ignoring it'') w) \<and>
     file_metrics (emit (Debug ''Not a JSON, ignoring it'') w) = file_metrics w \<and>
     file_jsons (emit (Debug ''Not a JSON, ignoring it'') w) = file_jsons w \<and>
     annotations (emit (Debug ''Not a JSON, ignoring it'') w) = annotations w"
  using assms by (simp add: parseJson_def emit_def)

theorem parseJson_discards_non_json_witness:
  "JSON_parse example_platform ''warning: unused variable'' = None \<and>
   parseJson example_platform new_CheckRunner ''warning: unused variable''
     = Some (Inr (), emit (Debug ''Not a JSON, ignoring it'') new_CheckRunner)"
proof -
  have "JSON_parse example_platform ''warning: unused variable'' = None"
    by (simp add: example_platform_def example_parse_def line_a_def line_b_def line_c_def text_g_def)
  with parseJson_discards_non_json [OF this, of new_CheckRunner] show ?thesis by simp
qed

text \<open>
  The claim as stated fails on the line \<^verbatim>\<open>42\<close>, which is JSON but no record: an
  empty object is stored for it, and rendering it raises a TypeError.
\<close>

theorem parseJson_number_counterexample:
  "JSON_parse example_platform ''42'' = Some (JNum 42) \<and>
   parseJson example_platform new_CheckRunner ''42''
     = Some (Inl TypeError, new_CheckRunner\<lparr>file_jsons := [JObj []]\<rparr>)"
  by (simp add: parseJson_def example_parse_simps getFileMetrics_def getMetrics_def new_CheckRunner_def)

subsection \<open>Records with nested objects\<close>

text \<open>
  Claim C10. A line that decodes to a well-formed record whose \<^verbatim>\<open>spaces\<close> array is
  not empty and holds objects makes \<^verbatim>\<open>parseJson\<close> raise a SyntaxError, on any
  platform whose parser rejects the text \<^verbatim>\<open>[object Object]\<close>: the record and its
  rendering are already stored when \<^verbatim>\<open>makeAnnotations\<close> parses the first space,
  outside the \<^verbatim>\<open>try\<close>.
\<close>

theorem parseJson_raises_on_object_spaces:
  assumes "JSON_parse pf line = Some (enc_obj rca)"
    and "f_spaces rca \<noteq> []"
    and "JSON_parse pf ''[object Object]'' = None"
  shows "\<exists>rendered. parseJson pf w line =
     Some (Inl SyntaxError,
           w\<lparr>file_jsons := file_jsons w @ [enc_obj rca], file_metrics := file_metrics w @ [rendered]\<rparr>)"
proof -
  obtain s where s: "getFileMetrics pf (Some (enc_obj rca)) = Inr s"
    using getFileMetrics_enc by blast
  have "parseJson pf w line =
     Some (Inl SyntaxError,
           w\<lparr>file_jsons := file_jsons w @ [enc_obj rca], file_metrics := file_metrics w @ [s]\<rparr>)"
    by (simp add: parseJson_def assms(1) Object_assign_enc_obj s spaces_nonempty_enc_obj assms(2)
        makeAnnotations_object_spaces [OF assms(2,3)] Let_def)
  then show ?thesis by blast
qed

theorem parseJson_raises_on_object_spaces_witness:
  "JSON_parse example_platform line_b = Some (enc_obj file_b) \<and>
   f_spaces file_b = [function_f, function_g] \<and>
   JSON_parse example_platform ''[object Object]'' = None \<and>
   (\<exists>rendered. parseJson example_platform new_CheckRunner line_b =
      Some (Inl SyntaxError,
            new_CheckRunner\<lparr>file_jsons := file_jsons new_CheckRunner @ [enc_obj file_b],
                             file_metrics := file_metrics new_CheckRunner @ [rendered]\<rparr>))"
proof -
  have spaces: "f_spaces file_b = [function_f, function_g]"
    by (simp add: file_b_def)
  then have "f_spaces file_b \<noteq> []" by simp
  from parseJson_raises_on_object_spaces [OF example_parse_simps(2) this example_parse_simps(6)]
    example_parse_simps(2,6) spaces
  show ?thesis by blast
qed

section \<open>Extracting annotations\<close>

lemma text_spaces_fields:
  assumes "text_spaces pf space j"
  shows "addAnnotation (Some j) anns = (Inr (), anns @ [annotation_of space])"
    and "\<exists>xs. get (Some j) ''spaces'' = Inr (Some (JArr xs)) \<and>
           list_all2 (\<lambda>c x. case x of
                        JStr s \<Rightarrow> (case JSON_parse pf s of
                                     Some j' \<Rightarrow> text_spaces pf c j'
                                   | None \<Rightarrow> False)
                      | _ \<Rightarrow> False) (f_spaces space) xs"
  using assms
  by (cases space; auto simp: addAnnotation_def annotation_of_def getAnnotationMetrics_def
      split: sum.splits option.splits json.splits)+

lemma makeAnnotations_loop_text:
  assumes "list_all2 (\<lambda>c x. case x of
                        JStr s \<Rightarrow> (case JSON_parse pf s of
                                     Some j' \<Rightarrow> text_spaces pf c j'
                                   | None \<Rightarrow> False)
                      | _ \<Rightarrow> False) children xs"
    and "\<And>c j anns. c \<in> set children \<Longrightarrow> text_spaces pf c j \<Longrightarrow>
           makeAnnotations pf (Some j) anns = Some (Inr (), anns @ map annotation_of (spaces_below c))"
  shows "makeAnnotations_loop pf xs anns
           = Some (Inr (), anns @ map annotation_of (concat (map (\<lambda>c. c # spaces_below c) children)))"
  using assms
proof (induction children xs arbitrary: anns rule: list_all2_induct)
  case Nil
  show ?case by (simp add: makeAnnotations_loop_Nil)
next
  case (Cons c children x xs)
  from Cons.hyps(1) obtain s j' where x: "x = JStr s" and parsed: "JSON_parse pf s = Some j'"
    and enc: "text_spaces pf c j'"
    by (auto split: json.splits option.splits)
  from text_spaces_fields(2) [OF enc] obtain ys where sp: "get (Some j') ''spaces'' = Inr (Some (JArr ys))"
    and len: "length (f_spaces c) = length ys"
    by (auto dest: list_all2_lengthD)
  have nonempty: "spaces_nonempty pf (Some j') = Inr (ys \<noteq> [])"
    by (simp add: spaces_nonempty_def sp)
  have iter: "spaces_iter (Some j') = Inr ys"
    by (simp add: spaces_iter_def sp)
  have below: "makeAnnotations pf (Some j') (anns @ [annotation_of c])
      = Some (Inr (), (anns @ [annotation_of c]) @ map annotation_of (spaces_below c))"
    by (rule Cons.prems) (simp_all add: enc)
  then have inner: "makeAnnotations_loop pf ys (anns @ [annotation_of c])
      = Some (Inr (), (anns @ [annotation_of c]) @ map annotation_of (spaces_below c))"
    by (simp add: makeAnnotations_def iter)
  have leaf: "spaces_below c = []" if "ys = []"
    using that len by (cases c) simp
  have rest: "makeAnnotations_loop pf xs anns'
      = Some (Inr (), anns' @ map annotation_of (concat (map (\<lambda>c. c # spaces_below c) children)))" for anns'
    by (rule Cons.IH) (rule Cons.prems, simp_all)
  show ?case
    by (simp add: makeAnnotations_loop_Cons x parsed text_spaces_fields(1) [OF enc] nonempty iter
        inner rest leaf)
qed

text \<open>
  When the spaces of a record arrive as JSON texts, at every level, the extraction adds
  one annotation per space below the record, in depth-first document order, none for
  the record itself, with the lines of the space.
\<close>

lemma makeAnnotations_text_spaces:
  "text_spaces pf rca j \<Longrightarrow>
     makeAnnotations pf (Some j) anns = Some (Inr (), anns @ map annotation_of (spaces_below rca))"
proof (induction rca arbitrary: j anns)
  case (RcaFile nm line1 line2 kind m children)
  from text_spaces_fields(2) [OF RcaFile.prems] obtain xs
    where sp: "get (Some j) ''spaces'' = Inr (Some (JArr xs))"
      and all: "list_all2 (\<lambda>c x. case x of
                        JStr s \<Rightarrow> (case JSON_parse pf s of
                                     Some j' \<Rightarrow> text_spaces pf c j'
                                   | None \<Rightarrow> False)
                      | _ \<Rightarrow> False) children xs"
    by auto
  have "makeAnnotations_loop pf xs anns
      = Some (Inr (), anns @ map annotation_of (concat (map (\<lambda>c. c # spaces_below c) children)))"
    using all RcaFile.IH by (rule makeAnnotations_loop_text)
  then show ?case
    by (simp add: makeAnnotations_def spaces_iter_def sp)
qed

text \<open>
  Claim C3 at a well-formed record with three spaces below the root (\<open>f\<close>, the closure
  inside it, and \<open>g\<close>), held as nested objects: the extraction raises at the first of
  them and adds no annotation, where the claim has three. (For spaces held as JSON
  texts the lemma above gives the annotations the claim describes.)
\<close>

theorem makeAnnotations_raises_on_file_b:
  "length (spaces_below file_b) = 3 \<and>
   makeAnnotations example_platform (Some (enc_obj file_b)) [] = Some (Inl SyntaxError, [])"
proof -
  have "length (spaces_below file_b) = 3"
    by (simp add: file_b_def function_f_def function_g_def closure_space_def)
  moreover have "makeAnnotations example_platform (Some (enc_obj file_b)) [] = Some (Inl SyntaxError, [])"
    by (rule makeAnnotations_object_spaces) (simp_all add: file_b_def example_parse_simps)
  ultimately show ?thesis by simp
qed

text \<open>
  Claim C4 at a record \<open>c.rs\<close> whose one space \<open>g\<close> arrives as JSON text, so that
  the extraction succeeds: the annotation's path is the name of the space, not of the
  file, and its message is the fixed text, not a rendering of the metrics.
\<close>

theorem annotation_of_line_c:
  "get (Some record_c) ''name'' = Inr (Some (JStr ''c.rs'')) \<and>
   map_option fst (parseJson example_platform new_CheckRunner line_c) = Some (Inr ()) \<and>
   map_option (\<lambda>r. annotations (snd r)) (parseJson example_platform new_CheckRunner line_c)
     = Some [\<lparr>path = Some (JStr ''g''), start_line = Some (JNum 12), end_line = Some (JNum 20),
              annotation_level = ''notice'', title = Some (JStr ''g''), message = ''Hello''\<rparr>]"
proof -
  obtain s where m: "getMetrics example_platform (Some (enc_metrics example_metrics)) = Inr s"
    using getMetrics_enc by blast
  have rendered: "getFileMetrics example_platform (Some record_c)
      = Inr (''<details>\<newline><summary><b>c.rs</b></summary>\<newline>\<newline>'' @ s @ ''\<newline></details>'')"
    by (simp add: getFileMetrics_def record_c_def m ToString_def)
  have nonempty: "spaces_nonempty example_platform (Some record_c) = Inr True"
    by (simp add: spaces_nonempty_def record_c_def)
  have leaf: "spaces_nonempty example_platform (Some (enc_obj function_g)) = Inr False"
    unfolding spaces_nonempty_enc_obj by (simp add: function_g_def)
  have added: "addAnnotation (Some (enc_obj function_g)) []
      = (Inr (), [\<lparr>path = Some (JStr ''g''), start_line = Some (JNum 12), end_line = Some (JNum 20),
                     annotation_level = ''notice'', title = Some (JStr ''g''), message = ''Hello''\<rparr>])"
    unfolding addAnnotation_def get_enc_obj by (simp add: function_g_def getAnnotationMetrics_def)
  have extracted: "makeAnnotations example_platform (Some record_c) []
      = Some (Inr (), [\<lparr>path = Some (JStr ''g''), start_line = Some (JNum 12), end_line = Some (JNum 20),
                         annotation_level = ''notice'', title = Some (JStr ''g''), message = ''Hello''\<rparr>])"
    by (simp add: makeAnnotations_def spaces_iter_def record_c_def makeAnnotations_loop_Cons
        makeAnnotations_loop_Nil example_parse_simps added leaf)
  show ?thesis
    by (simp add: parseJson_def example_parse_simps rendered nonempty extracted new_CheckRunner_def Let_def)
      (simp add: record_c_def)
qed

section \<open>The report\<close>

lemma getMetrics0_enc: "getMetrics0 pf (Some (enc_metrics m)) = Inr (metrics_html pf m)"
  by (simp add: getMetrics0_def enc_metrics_def metrics_html_def ToString_def)

lemma space_name_enc_obj:
  "space_name pf (Some (enc_obj rca)) = Inr (shown_name (f_name rca))"
  by (simp add: space_name_def get_enc_obj shown_name_def ToString_def)

text \<open>One step of the loop on a well-formed space whose children render as the specification says.\<close>

lemma getSpaceMetrics_loop_step:
  assumes "\<And>acc. getSpaceMetrics_loop pf (map enc_obj (f_spaces space)) acc
             = Inr (acc @ concat (map (space_block pf) (f_spaces space)))"
  shows "getSpaceMetrics_loop pf (enc_obj space # rest) spaces_str
           = getSpaceMetrics_loop pf rest (spaces_str @ space_block pf space)"
proof (cases space)
  case (RcaFile nm line1 line2 kind m children)
  have "getSpaceMetrics_loop pf (enc_obj space # rest) spaces_str =
      (if f_spaces space \<noteq> [] then
         getSpaceMetrics_loop pf rest
           (spaces_str @ space_open (shown_name (f_name space)) (metrics_html pf (f_metrics space))
            @ subspaces_open @ ((''<ul>'' @ concat (map (space_block pf) (f_spaces space))) @ ''</ul>'')
            @ subspaces_close @ space_close)
       else getSpaceMetrics_loop pf rest
           (spaces_str @ space_open (shown_name (f_name space)) (metrics_html pf (f_metrics space)) @ space_close))"
    by (simp add: space_name_enc_obj get_enc_obj getMetrics0_enc
          spaces_nonempty_enc_obj spaces_iter_enc_obj assms)
  then show ?thesis
    by (simp add: RcaFile)
qed

lemma getSpaceMetrics_loop_list:
  assumes "\<And>c acc rest. c \<in> set children \<Longrightarrow>
             getSpaceMetrics_loop pf (enc_obj c # rest) acc = getSpaceMetrics_loop pf rest (acc @ space_block pf c)"
  shows "getSpaceMetrics_loop pf (map enc_obj children) acc = Inr (acc @ concat (map (space_block pf) children))"
  using assms by (induction children arbitrary: acc) simp_all

lemma getSpaceMetrics_loop_enc:
  "getSpaceMetrics_loop pf (enc_obj space # rest) acc = getSpaceMetrics_loop pf rest (acc @ space_block pf space)"
proof (induction space arbitrary: rest acc)
  case (RcaFile nm line1 line2 kind m children)
  show ?case
  proof (rule getSpaceMetrics_loop_step)
    fix acc'
    show "getSpaceMetrics_loop pf (map enc_obj (f_spaces (RcaFile nm line1 line2 kind m children))) acc'
            = Inr (acc' @ concat (map (space_block pf) (f_spaces (RcaFile nm line1 line2 kind m children))))"
      using RcaFile.IH by (simp add: getSpaceMetrics_loop_list)
  qed
qed

lemma getSpaceMetrics_enc:
  "getSpaceMetrics pf (Some (JArr (map enc_obj children))) = Inr (spaces_section pf children)"
proof -
  have "getSpaceMetrics_loop pf (map enc_obj children) ''<ul>''
      = Inr (''<ul>'' @ concat (map (space_block pf) children))"
    by (rule getSpaceMetrics_loop_list) (rule getSpaceMetrics_loop_enc)
  then show ?thesis
    by (simp add: getSpaceMetrics_def spaces_section_def)
qed

text \<open>
  Claim C6, as amended. In the renderer of \<^verbatim>\<open>part_000\<close>, the block of a well-formed
  record is its heading and its own metrics, followed, exactly when it has children, by
  a spaces section with one block per child, in the order of the children and with
  none left out or repeated, each block rendered the same way from the child; a record
  without children has no spaces section.
\<close>

theorem getFileMetrics0_nested_spaces:
  "getFileMetrics0 pf (Some (enc_obj rca)) = Inr (file_block pf rca) \<and>
   spaces_section pf (f_spaces rca) = ''<ul>'' @ concat (map (space_block pf) (f_spaces rca)) @ ''</ul>'' \<and>
   space_block pf rca =
     space_open (shown_name (f_name rca)) (metrics_html pf (f_metrics rca))
     @ (if f_spaces rca = [] then []
        else subspaces_open @ spaces_section pf (f_spaces rca) @ subspaces_close)
     @ space_close"
proof -
  have "getFileMetrics0 pf (Some (enc_obj rca)) = Inr (file_block pf rca)"
    by (simp add: getFileMetrics0_def get_enc_obj getMetrics0_enc spaces_nonempty_enc_obj
        getSpaceMetrics_enc file_block_def ToString_def)
  moreover have "space_block pf rca =
     space_open (shown_name (f_name rca)) (metrics_html pf (f_metrics rca))
     @ (if f_spaces rca = [] then []
        else subspaces_open @ spaces_section pf (f_spaces rca) @ subspaces_close)
     @ space_close"
    by (cases rca) (simp add: spaces_section_def)
  ultimately show ?thesis by (simp add: spaces_section_def)
qed

theorem getFileMetrics0_nested_spaces_witness:
  "getFileMetrics0 example_platform (Some (enc_obj file_b)) = Inr (file_block example_platform file_b)"
  using getFileMetrics0_nested_spaces [of example_platform file_b] by blast

text \<open>
  The claim as stated fails on \<^verbatim>\<open>getFileMetrics\<close> of \<^verbatim>\<open>part_001\<close>: the block of
  a record with spaces is the block of the same record without any.
\<close>

theorem getFileMetrics_no_spaces_counterexample:
  "f_spaces file_b = [function_f, function_g] \<and>
   (\<exists>rendered. getFileMetrics example_platform (Some (enc_obj file_b)) = Inr rendered) \<and>
   getFileMetrics example_platform (Some (enc_obj file_b))
     = getFileMetrics example_platform (Some (enc_obj (RcaFile ''b.rs'' 1 30 ''unit'' example_metrics [])))"
  using getFileMetrics_enc [of example_platform file_b]
  by (simp add: file_b_def getFileMetrics_def)

section \<open>The run\<close>

text \<open>
  What a line leaves of the pending annotations and of the log, for a line without
  spaces and for a line whose spaces are nested objects.
\<close>

lemma parseJson_leaf_frame:
  assumes "JSON_parse pf line = Some (enc_obj rca)" and "f_spaces rca = []"
  shows "\<exists>w'. parseJson pf w line = Some (Inr (), w') \<and>
     annotations w' = annotations w \<and> trace w' = trace w"
proof -
  from parseJson_leaf [OF assms, of w] obtain rendered where
    "parseJson pf w line =
       Some (Inr (), w\<lparr>file_jsons := file_jsons w @ [enc_obj rca],
                         file_metrics := file_metrics w @ [rendered]\<rparr>)"
    by blast
  then show ?thesis by simp
qed

lemma parseJson_object_spaces_frame:
  assumes "JSON_parse pf line = Some (enc_obj rca)"
    and "f_spaces rca \<noteq> []"
    and "JSON_parse pf ''[object Object]'' = None"
  shows "\<exists>w'. parseJson pf w line = Some (Inl SyntaxError, w') \<and>
     annotations w' = annotations w \<and> trace w' = trace w"
proof -
  obtain s where s: "getFileMetrics pf (Some (enc_obj rca)) = Inr s"
    using getFileMetrics_enc by blast
  have "parseJson pf w line =
     Some (Inl SyntaxError,
           w\<lparr>file_jsons := file_jsons w @ [enc_obj rca], file_metrics := file_metrics w @ [s]\<rparr>)"
    by (simp add: parseJson_def assms(1) Object_assign_enc_obj s spaces_nonempty_enc_obj assms(2)
        makeAnnotations_object_spaces [OF assms(2,3)] Let_def)
  then show ?thesis by simp
qed

text \<open>
  When the call of the tool rejects, the group is closed and the error of the call
  leaves: there is no reporting cycle.
\<close>

lemma run_call_rejected:
  assumes "call program (stdline_listener pf)
             (emit (StartGroup ''Executing rust-code-analysis-cli (JSON output)'') new_CheckRunner)
           = Some (Inl e, w1)"
  shows "run pf cl actionInput ctx program = Some (Inl e, emit EndGroup w1)"
  using assms by (simp add: run_def)

text \<open>
  Claim C9, as amended. When the call of the tool resolves with an exit code, whatever
  the listener did on the lines and whatever the code, the reporting cycle is run on
  the runner as the call left it, and the run ends in the world the cycle leaves. When
  the cycle returns without an error, the run raises an error whose message holds the
  exit code if that code is not zero, and raises nothing if it is zero. When the cycle
  raises, the run raises the error of the cycle, and the exit code is not reported.
\<close>

theorem run_outcome:
  assumes "call program (stdline_listener pf)
             (emit (StartGroup ''Executing rust-code-analysis-cli (JSON output)'') new_CheckRunner)
           = Some (Inr code, w1)"
  shows "let cycle = executeCheck pf cl (check_options pf actionInput ctx program) (emit EndGroup w1) in
     run pf cl actionInput ctx program =
       Some (case fst cycle of
               Inl e \<Rightarrow> Inl e
             | Inr u \<Rightarrow>
                 if code \<noteq> 0
                 then Inl (Error (''rust-code-analysis-check had exited with the ''
                                  @ Number_toString pf (of_int code) @ '' exit code''))
                 else Inr (),
             snd cycle)"
  using assms
  by (cases "executeCheck pf cl (check_options pf actionInput ctx program) (emit EndGroup w1)")
     (auto simp: run_def exit_code_error_def Let_def split: sum.splits)

text \<open>
  The tool prints a warning, a record with nested objects (on which the listener
  raises) and a record without spaces, and exits with code 2: the cycle sends its one
  update, and then the run raises the error of the exit code.
\<close>

theorem run_outcome_witness:
  "map_option fst (run example_platform accepting_client example_input example_context failed_tool)
     = Some (Inl (Error ''rust-code-analysis-check had exited with the 2 exit code'')) \<and>
   map_option (\<lambda>r. map conclusion (updates_of (trace (snd r))))
       (run example_platform accepting_client example_input example_context failed_tool)
     = Some [Some ''success'']"
proof -
  let ?w0 = "emit (StartGroup ''Executing rust-code-analysis-cli (JSON output)'') new_CheckRunner"
  let ?wd = "emit (Debug ''Not a JSON, ignoring it'') ?w0"
  let ?opts = "check_options example_platform example_input example_context failed_tool"
  have skipped: "parseJson example_platform ?w0 ''warning: unused variable'' = Some (Inr (), ?wd)"
    by (simp add: parseJson_def example_platform_def example_parse_def
        line_a_def line_b_def line_c_def text_g_def)
  have "f_spaces file_b \<noteq> []" by (simp add: file_b_def)
  from parseJson_object_spaces_frame [OF example_parse_simps(2) this example_parse_simps(6), of ?wd]
  obtain wb where raised: "parseJson example_platform ?wd line_b = Some (Inl SyntaxError, wb)"
    and wb: "annotations wb = annotations ?wd" "trace wb = trace ?wd"
    by blast
  have "f_spaces file_a = []" by (simp add: file_a_def)
  from parseJson_leaf_frame [OF example_parse_simps(1) this, of wb]
  obtain w1 where parsed: "parseJson example_platform wb line_a = Some (Inr (), w1)"
    and w1: "annotations w1 = annotations wb" "trace w1 = trace wb"
    by blast
  have lines: "call failed_tool (stdline_listener example_platform) ?w0 = Some (Inr 2, w1)"
    by (simp add: failed_tool_def tool_def stdline_listener_def skipped raised parsed)
  have none_pending: "annotations (emit EndGroup w1) = []"
    and none_sent: "updates_of (trace (emit EndGroup w1)) = []"
    by (simp_all add: w1 wb emit_def new_CheckRunner_def)
  have created: "fst (createCheck accepting_client ?opts (emit EndGroup w1)) = Inr 7"
    by (simp add: createCheck_def accepting_client_def)
  have ok: "fst (executeCheck example_platform accepting_client ?opts (emit EndGroup w1)) = Inr ()"
    by (rule executeCheck_accepting [OF _ created]) (simp add: accepting_client_def)
  then have ok': "executeCheck example_platform accepting_client ?opts (emit EndGroup w1)
      = (Inr (), snd (executeCheck example_platform accepting_client ?opts (emit EndGroup w1)))"
    by (metis prod.collapse)
  let ?us = "sent_since (emit EndGroup w1)
               (snd (executeCheck example_platform accepting_client ?opts (emit EndGroup w1)))"
  from executeCheck_ok(1) [OF created ok'] none_pending have "length ?us = 1"
    by (metis length_map list.size(3,4) One_nat_def add.left_neutral)
  with executeCheck_ok(3) [OF created ok'] have "map conclusion ?us = [Some ''success'']"
    by simp
  then have sent: "map conclusion (updates_of (trace (snd (executeCheck example_platform accepting_client ?opts (emit EndGroup w1)))))
      = [Some ''success'']"
    by (simp add: sent_since_def none_sent)
  have shown: "Number_toString example_platform (of_int 2) = ''2''"
    by (simp add: example_platform_def show_nat.simps)
  from run_outcome [OF lines, of accepting_client example_input example_context] ok sent shown
  show ?thesis by (simp add: Let_def)
qed

text \<open>
  The claim as stated fails when the tool exits with code 3 and the create call fails
  without the fork signal: the run raises the error of the create call.
\<close>

theorem run_masks_exit_code_counterexample:
  "map_option fst (call silent_failed_tool (stdline_listener example_platform)
       (emit (StartGroup ''Executing rust-code-analysis-cli (JSON output)'') new_CheckRunner))
     = Some (Inr 3) \<and>
   map_option fst (run example_platform refusing_client example_input example_context silent_failed_tool)
     = Some (Inl (RequestError ''Resource not accessible by integration'')) \<and>
   RequestError ''Resource not accessible by integration'' \<noteq> exit_code_error example_platform 3"
  by (simp add: run_def silent_failed_tool_def tool_def executeCheck_def createCheck_def
      refusing_client_def truthy_env_def example_platform_def exit_code_error_def)

end
